theory Spec2Isabelle
  imports Main "HOL-Library.Multiset" "HOL-Library.Sublist"
begin

section \<open>Values and errors of the host language\<close>

text \<open>
  The registry and the generators are TypeScript.  Numbers that the code uses as
  identifiers, type tags and counters are integers; strings are character lists.
  A raised exception is a value: \<open>TypeError\<close> is what the runtime raises when a
  property of \<open>null\<close> or \<open>undefined\<close> is read, \<open>Error msg\<close> is an explicit
  \<open>throw new Error(msg)\<close>.
\<close>

datatype js_error = TypeError | Error string

datatype js_null = Null

text \<open>
  \<open>file_size\<close> is declared \<open>string\<close>, but \<open>validate\<close> tests its runtime type
  (\<open>typeof component.file_size !== 'string'\<close>), because records reach the registry
  from unchecked JSON.  The field therefore carries a dynamically typed value.
\<close>

datatype js_value = JString string | JNumber int | JUndefined

fun typeof :: "js_value \<Rightarrow> string" where
  "typeof (JString s) = ''string''"
| "typeof (JNumber n) = ''number''"
| "typeof JUndefined = ''undefined''"

text \<open>Decimal rendering of an integer, as a template literal \<open>${n}\<close> produces it.\<close>

definition digit_char :: "nat \<Rightarrow> char" where
  "digit_char d = ''0123456789'' ! (d mod 10)"

function nat_digits :: "nat \<Rightarrow> string" where
  "nat_digits n = (if n < 10 then [digit_char n] else nat_digits (n div 10) @ [digit_char (n mod 10)])"
  by pat_completeness auto
termination
  by (relation "measure (\<lambda>n. n)") auto

definition number_to_string :: "int \<Rightarrow> string" where
  "number_to_string n = (if n < 0 then ''-'' @ nat_digits (nat (- n)) else nat_digits (nat n))"

section \<open>Insertion-ordered maps\<close>

text \<open>
  A JavaScript \<open>Map\<close> keeps its entries in insertion order; \<open>set\<close> on a key that is
  present replaces the value in place, \<open>set\<close> on a new key appends the entry.
\<close>

type_synonym ('k, 'v) js_map = "('k \<times> 'v) list"

definition Map_get :: "('k, 'v) js_map \<Rightarrow> 'k \<Rightarrow> 'v option" where
  "Map_get m k = map_of m k"

definition Map_has :: "('k, 'v) js_map \<Rightarrow> 'k \<Rightarrow> bool" where
  "Map_has m k = (map_of m k \<noteq> None)"

fun Map_set :: "('k, 'v) js_map \<Rightarrow> 'k \<Rightarrow> 'v \<Rightarrow> ('k, 'v) js_map" where
  "Map_set [] k v = [(k, v)]"
| "Map_set ((k', v') # m) k v = (if k' = k then (k, v) # m else (k', v') # Map_set m k v)"

definition Map_values :: "('k, 'v) js_map \<Rightarrow> 'v list" where
  "Map_values m = map snd m"

definition Map_size :: "('k, 'v) js_map \<Rightarrow> nat" where
  "Map_size m = length m"

section \<open>Data model (types/component.ts)\<close>

record Component =
  comp_id :: int
  comp_name :: string
  comp_type :: int
  comp_version :: string
  comp_version_code :: int
  comp_file_name :: string
  comp_file_md5 :: string
  comp_file_size :: js_value
  comp_download_url :: string
  comp_logo :: string
  comp_display_name :: string
  comp_blurb :: "string option"
  comp_gpu_range :: "string option"
  comp_is_steam :: "int option"

record SubData =
  sub_file_name :: string
  sub_download_url :: string
  sub_file_md5 :: string

record Container =
  cont_id :: int
  cont_name :: string
  cont_version :: string
  cont_version_code :: int
  cont_file_name :: string
  cont_file_md5 :: string
  cont_file_size :: string
  cont_download_url :: string
  cont_logo :: string
  cont_display_name :: string
  cont_framework :: string
  cont_framework_type :: string
  cont_is_steam :: int
  cont_sub_data :: "SubData option"

record Imagefs =
  img_id :: int
  img_name :: string
  img_version :: string
  img_version_code :: int
  img_file_name :: string
  img_file_md5 :: string
  img_file_size :: string
  img_download_url :: string
  img_logo :: string
  img_display_name :: string
  img_upgrade_msg :: string
  img_blurb :: string

record Translations =
  tr_box64 :: "(string \<times> string) list"
  tr_fex :: "(string \<times> string) list"

record Controller =
  ctl_dinput :: bool
  ctl_xinput :: bool
  ctl_xboxLayout :: bool
  ctl_vibration :: bool

record ExecutionConfig =
  ec_translations :: Translations
  ec_controller :: Controller
  ec_audio_driver :: int
  ec_cpu_limitations :: int
  ec_video_memory :: int
  ec_directx_panel :: int
  ec_launch_windowed_mode :: int
  ec_start_param :: string
  ec_environment :: string

record ExecutionContext =
  ctx_params :: "string \<times> int \<times> string \<times> int \<times> string \<times> int"
  ctx_script_id :: int
  ctx_timestamp :: int

record Defaults =
  dxvk :: int
  vkd3d :: int
  steamClient :: int
  container :: int
  genericComponentIds :: "int list"
  qualcommComponentIds :: "int list"
  genericContext :: ExecutionContext
  qualcommContext :: ExecutionContext

text \<open>
  \<open>BuildConfig\<close> is declared in a file that is not part of the sources at hand; the
  registry reads two of its options, the prefix of rewritten download URLs and the
  uniform logo.
\<close>

record BuildConfig =
  cdnBaseUrl :: string
  logoUrl :: string

record TypeMeta =
  meta_name :: string
  meta_displayName :: string
  meta_manifest :: string

definition COMPONENT_TYPE_META :: "int \<Rightarrow> TypeMeta option" where
  "COMPONENT_TYPE_META t =
    (if t = 1 then Some \<lparr>meta_name = ''box64'', meta_displayName = ''Box64 Emulators'', meta_manifest = ''box64_manifest''\<rparr>
     else if t = 2 then Some \<lparr>meta_name = ''drivers'', meta_displayName = ''GPU Drivers'', meta_manifest = ''drivers_manifest''\<rparr>
     else if t = 3 then Some \<lparr>meta_name = ''dxvk'', meta_displayName = ''DXVK Layers'', meta_manifest = ''dxvk_manifest''\<rparr>
     else if t = 4 then Some \<lparr>meta_name = ''vkd3d'', meta_displayName = ''VKD3D Proton'', meta_manifest = ''vkd3d_manifest''\<rparr>
     else if t = 5 then Some \<lparr>meta_name = ''games'', meta_displayName = ''Game Patches'', meta_manifest = ''games_manifest''\<rparr>
     else if t = 6 then Some \<lparr>meta_name = ''libraries'', meta_displayName = ''System Libraries'', meta_manifest = ''libraries_manifest''\<rparr>
     else if t = 7 then Some \<lparr>meta_name = ''steam'', meta_displayName = ''Steam Components'', meta_manifest = ''steam_manifest''\<rparr>
     else None)"

section \<open>The registry (registry/registry.ts)\<close>

record ComponentRegistry =
  components :: "(int, Component) js_map"
  componentsByType :: "(int, Component list) js_map"
  componentsByName :: "(string, Component) js_map"
  containers :: "Container list"
  imagefs :: "Imagefs option"
  defaults :: "Defaults option"
  executionConfig :: "ExecutionConfig option"
  config :: BuildConfig

text \<open>The constructor stores the configuration and creates the seven empty partitions.\<close>

definition new_ComponentRegistry :: "BuildConfig \<Rightarrow> ComponentRegistry" where
  "new_ComponentRegistry cfg =
    \<lparr>components = [],
     componentsByType = foldl (\<lambda>m t. Map_set m t []) [] [1, 2, 3, 4, 5, 6, 7],
     componentsByName = [],
     containers = [],
     imagefs = None,
     defaults = None,
     executionConfig = None,
     config = cfg\<rparr>"

text \<open>
  One call of \<open>addComponent\<close> ends in one of three ways: the component is registered;
  its id is taken, a warning is printed and nothing changes; or its type has no
  partition, and \<open>this.componentsByType.get(component.type)!.push(...)\<close> raises a
  \<open>TypeError\<close> after the id index was already written.
\<close>

datatype outcome = Registered | Warned string | Raised js_error

definition addComponent :: "Component \<Rightarrow> ComponentRegistry \<Rightarrow> outcome \<times> ComponentRegistry" where
  "addComponent component r =
    (if Map_has (components r) (comp_id component) then
       (case Map_get (components r) (comp_id component) of
          Some existing \<Rightarrow>
            (Warned (''Duplicate ID '' @ number_to_string (comp_id component) @ '': \"'' @ comp_name component
                     @ ''\" conflicts with \"'' @ comp_name existing @ ''\". Keeping first.''), r)
        | None \<Rightarrow> (Raised TypeError, r))
     else
       (let rewrittenComponent = component
              \<lparr>comp_download_url := cdnBaseUrl (config r) @ ''/'' @ comp_file_name component,
               comp_logo := logoUrl (config r)\<rparr>;
            r1 = r\<lparr>components := Map_set (components r) (comp_id component) rewrittenComponent\<rparr>
        in case Map_get (componentsByType r1) (comp_type component) of
             None \<Rightarrow> (Raised TypeError, r1)
           | Some arr \<Rightarrow>
               (Registered,
                r1\<lparr>componentsByType :=
                      Map_set (componentsByType r1) (comp_type component) (arr @ [rewrittenComponent]),
                    componentsByName :=
                      Map_set (componentsByName r1) (comp_name component) rewrittenComponent\<rparr>)))"

text \<open>\<open>addComponents\<close> calls \<open>addComponent\<close> in order; a raised error ends the loop.\<close>

fun addComponents :: "Component list \<Rightarrow> ComponentRegistry \<Rightarrow> outcome list \<times> ComponentRegistry" where
  "addComponents [] r = ([], r)"
| "addComponents (c # cs) r =
    (case addComponent c r of
       (Raised e, r') \<Rightarrow> ([Raised e], r')
     | (out, r') \<Rightarrow> (case addComponents cs r' of (outs, r'') \<Rightarrow> (out # outs, r'')))"

definition getById :: "ComponentRegistry \<Rightarrow> int \<Rightarrow> Component option" where
  "getById r i = Map_get (components r) i"

definition getByName :: "ComponentRegistry \<Rightarrow> string \<Rightarrow> Component option" where
  "getByName r n = Map_get (componentsByName r) n"

definition getByType :: "ComponentRegistry \<Rightarrow> int \<Rightarrow> Component list" where
  "getByType r t = (case Map_get (componentsByType r) t of Some l \<Rightarrow> l | None \<Rightarrow> [])"

definition getAllComponents :: "ComponentRegistry \<Rightarrow> Component list" where
  "getAllComponents r = Map_values (components r)"

definition getTotalCount :: "ComponentRegistry \<Rightarrow> nat" where
  "getTotalCount r = Map_size (components r)"

definition getCountByType :: "ComponentRegistry \<Rightarrow> int \<Rightarrow> nat" where
  "getCountByType r t = length (getByType r t)"

text \<open>
  The registry is built by calls of \<open>addComponent\<close> and \<open>addComponents\<close> and by
  assignments to its public fields (index.ts loads the containers, the firmware
  descriptor, the defaults and the execution configuration that way).  A caller may go
  on after a raised error, so a call sequence keeps the state each call leaves behind.
\<close>

datatype call =
    AddComponent Component
  | AddComponents "Component list"
  | SetContainers "Container list"
  | SetImagefs "Imagefs option"
  | SetDefaults "Defaults option"
  | SetExecutionConfig "ExecutionConfig option"

fun perform :: "ComponentRegistry \<Rightarrow> call \<Rightarrow> ComponentRegistry" where
  "perform r (AddComponent c) = snd (addComponent c r)"
| "perform r (AddComponents cs) = snd (addComponents cs r)"
| "perform r (SetContainers v) = r\<lparr>containers := v\<rparr>"
| "perform r (SetImagefs v) = r\<lparr>imagefs := v\<rparr>"
| "perform r (SetDefaults v) = r\<lparr>defaults := v\<rparr>"
| "perform r (SetExecutionConfig v) = r\<lparr>executionConfig := v\<rparr>"

definition registry_after :: "BuildConfig \<Rightarrow> call list \<Rightarrow> ComponentRegistry" where
  "registry_after cfg calls = foldl perform (new_ComponentRegistry cfg) calls"

text \<open>The components handed to the registry by a call sequence.\<close>

fun offered :: "call \<Rightarrow> Component list" where
  "offered (AddComponent c) = [c]"
| "offered (AddComponents cs) = cs"
| "offered _ = []"

subsection \<open>Sorting\<close>

text \<open>
  \<open>Array.prototype.sort\<close> belongs to the language, not to the repository.  For a
  consistent comparator the standard fixes its result: the elements in comparator
  order, elements that compare equal in their original order.  The model computes
  that list by stable insertion; \<open>[...components]\<close> copies, so the argument is
  unchanged.
\<close>

fun insert_by :: "('a \<Rightarrow> 'a \<Rightarrow> int) \<Rightarrow> 'a \<Rightarrow> 'a list \<Rightarrow> 'a list" where
  "insert_by compareFn x [] = [x]"
| "insert_by compareFn x (y # ys) =
    (if compareFn x y \<le> 0 then x # y # ys else y # insert_by compareFn x ys)"

definition Array_sort :: "('a \<Rightarrow> 'a \<Rightarrow> int) \<Rightarrow> 'a list \<Rightarrow> 'a list" where
  "Array_sort compareFn xs = foldr (insert_by compareFn) xs []"

definition sortByIdDescending :: "Component list \<Rightarrow> Component list" where
  "sortByIdDescending cs = Array_sort (\<lambda>a b. comp_id b - comp_id a) cs"

subsection \<open>Validation\<close>

text \<open>
  \<open>/^[a-f0-9]{32}$/i\<close> without the multiline flag accepts exactly the strings of 32
  characters that are digits or letters a to f in either case.
\<close>

definition hex_digit_ci :: "char \<Rightarrow> bool" where
  "hex_digit_ci ch = (ch \<in> set ''0123456789abcdefABCDEF'')"

definition md5_pattern_test :: "string \<Rightarrow> bool" where
  "md5_pattern_test s = (length s = 32 \<and> list_all hex_digit_ci s)"

record ValidationResult =
  valid :: bool
  errors :: "string list"

text \<open>The body of the loop over \<open>this.components.values()\<close>: the errors of one component.\<close>

definition component_errors :: "Component \<Rightarrow> string list" where
  "component_errors component =
    (if typeof (comp_file_size component) \<noteq> ''string''
     then [''Component '' @ number_to_string (comp_id component) @ '': file_size must be string''] else [])
    @ (if \<not> md5_pattern_test (comp_file_md5 component)
       then [''Component '' @ number_to_string (comp_id component) @ '': invalid MD5 hash''] else [])
    @ (if comp_name component = []
       then [''Component '' @ number_to_string (comp_id component) @ '': missing name''] else [])
    @ (if comp_file_name component = []
       then [''Component '' @ number_to_string (comp_id component) @ '': missing file_name''] else [])
    @ (if comp_download_url component = []
       then [''Component '' @ number_to_string (comp_id component) @ '': missing download_url''] else [])"

definition defaults_errors :: "ComponentRegistry \<Rightarrow> Defaults \<Rightarrow> string list" where
  "defaults_errors r d =
    (if \<not> Map_has (components r) (dxvk d)
     then [''Default dxvk ID '' @ number_to_string (dxvk d) @ '' not found''] else [])
    @ (if \<not> Map_has (components r) (vkd3d d)
       then [''Default vkd3d ID '' @ number_to_string (vkd3d d) @ '' not found''] else [])
    @ (if \<not> Map_has (components r) (steamClient d)
       then [''Default steamClient ID '' @ number_to_string (steamClient d) @ '' not found''] else [])
    @ concat (map (\<lambda>i. if \<not> Map_has (components r) i
                        then [''Generic script component ID '' @ number_to_string i @ '' not found''] else [])
                  (genericComponentIds d))
    @ concat (map (\<lambda>i. if \<not> Map_has (components r) i
                        then [''Qualcomm script component ID '' @ number_to_string i @ '' not found''] else [])
                  (qualcommComponentIds d))"

definition validate :: "ComponentRegistry \<Rightarrow> ValidationResult" where
  "validate r =
    (let errs =
           (if Map_size (components r) = 0 then [''No components loaded''] else [])
           @ (if imagefs r = None then [''Imagefs not loaded''] else [])
           @ (if length (containers r) = 0 then [''No containers loaded''] else [])
           @ (if defaults r = None then [''Defaults not loaded''] else [])
           @ (if executionConfig r = None then [''Execution config not loaded''] else [])
           @ concat (map component_errors (Map_values (components r)))
           @ (case defaults r of None \<Rightarrow> [] | Some d \<Rightarrow> defaults_errors r d)
     in \<lparr>valid = (length errs = 0), errors = errs\<rparr>)"

section \<open>Output documents (types/outputs.ts)\<close>

record ManifestComponent =
  mc_display_name :: string
  mc_download_url :: string
  mc_file_md5 :: string
  mc_file_name :: string
  mc_file_size :: js_value
  mc_id :: int
  mc_is_ui :: int
  mc_logo :: string
  mc_name :: string
  mc_type :: int
  mc_version :: string
  mc_version_code :: int

record ManifestData =
  md_type :: int
  md_type_name :: string
  md_display_name :: string
  md_total :: nat
  md_components :: "ManifestComponent list"

record ManifestFile =
  mf_code :: int
  mf_msg :: string
  mf_data :: ManifestData

record IndexCategory =
  ic_count :: nat
  ic_display_name :: string
  ic_manifest_url :: string
  ic_name :: string
  ic_type :: int

record IndexData =
  ix_categories :: "IndexCategory list"
  ix_total_components :: nat

record IndexFile =
  if_code :: int
  if_msg :: string
  if_data :: IndexData

record DefaultComponentEntry =
  dce_blurb :: string
  dce_display_name :: string
  dce_download_url :: string
  dce_file_md5 :: string
  dce_file_name :: string
  dce_file_size :: js_value
  dce_id :: int
  dce_logo :: string
  dce_name :: string
  dce_type :: int
  dce_version :: string
  dce_version_code :: int

record DefaultComponentData =
  dcd_container :: js_null
  dcd_gpu :: js_null
  dcd_dxvk :: DefaultComponentEntry
  dcd_vkd3d :: DefaultComponentEntry
  dcd_translator :: DefaultComponentEntry
  dcd_steamClient :: DefaultComponentEntry

record DefaultComponentFile =
  dcf_code :: int
  dcf_msg :: string
  dcf_data :: DefaultComponentData
  dcf_time :: string

record ExecuteComponent =
  xc_base_type :: int
  xc_blurb :: string
  xc_display_name :: string
  xc_download_url :: string
  xc_file_md5 :: string
  xc_file_name :: string
  xc_file_size :: js_value
  xc_id :: int
  xc_is_base :: int
  xc_is_ui :: int
  xc_logo :: string
  xc_name :: string
  xc_type :: int
  xc_version :: string
  xc_version_code :: int

record ImagefsRef =
  ir_display_name :: string
  ir_download_url :: string
  ir_file_md5 :: string
  ir_file_name :: string
  ir_file_size :: string
  ir_id :: int
  ir_logo :: string
  ir_name :: string
  ir_version :: string
  ir_version_code :: int

record ContainerRef =
  cr_blurb :: string
  cr_display_name :: string
  cr_download_url :: string
  cr_file_md5 :: string
  cr_file_name :: string
  cr_file_size :: string
  cr_framework :: string
  cr_framework_type :: string
  cr_id :: int
  cr_is_steam :: int
  cr_logo :: string
  cr_name :: string
  cr_sub_data :: "SubData option"
  cr_version :: string
  cr_version_code :: int

record ExecuteScriptData =
  es_audio_driver :: int
  es_component :: "ExecuteComponent list"
  es_component_ids :: "int list"
  es_container :: ContainerRef
  es_container_id :: int
  es_controller :: Controller
  es_cpu_limitations :: int
  es_directx_panel :: int
  es_environment :: string
  es_execution_context :: ExecutionContext
  es_imagefs :: ImagefsRef
  es_launch_windowed_mode :: int
  es_start_param :: string
  es_translations :: Translations
  es_video_memory :: int

record ExecuteScriptFile =
  esf_code :: int
  esf_msg :: string
  esf_data :: ExecuteScriptData
  esf_time :: string

section \<open>Generators\<close>

text \<open>
  \<open>timestamp || getTimestamp()\<close>: an absent or empty timestamp is replaced by the
  clock's reading, which the model takes as the argument \<open>now\<close>.
\<close>

definition time_or_now :: "string option \<Rightarrow> string \<Rightarrow> string" where
  "time_or_now timestamp now =
    (case timestamp of None \<Rightarrow> now | Some t \<Rightarrow> if t = [] then now else t)"

subsection \<open>Manifests\<close>

text \<open>
  \<open>display_name\<close> is a required string of a component (both parsers set it), so
  \<open>component.display_name ?? ''\<close> is the field itself; \<open>blurb\<close> and \<open>gpu_range\<close> are
  optional, and \<open>?? ''\<close> replaces a missing one by the empty string.
\<close>

definition toManifestComponent :: "Component \<Rightarrow> ManifestComponent" where
  "toManifestComponent component =
    \<lparr>mc_display_name = comp_display_name component,
     mc_download_url = comp_download_url component,
     mc_file_md5 = comp_file_md5 component,
     mc_file_name = comp_file_name component,
     mc_file_size = comp_file_size component,
     mc_id = comp_id component,
     mc_is_ui = 1,
     mc_logo = comp_logo component,
     mc_name = comp_name component,
     mc_type = comp_type component,
     mc_version = comp_version component,
     mc_version_code = comp_version_code component\<rparr>"

text \<open>
  For a type outside the table \<open>meta\<close> is \<open>undefined\<close> and reading \<open>meta.name\<close>
  raises, after the list was sorted and converted.
\<close>

definition generateManifest :: "ComponentRegistry \<Rightarrow> int \<Rightarrow> js_error + ManifestFile" where
  "generateManifest registry t =
    (let meta = COMPONENT_TYPE_META t;
         comps = getByType registry t;
         sorted = sortByIdDescending comps;
         manifestComponents = map toManifestComponent sorted
     in case meta of
          None \<Rightarrow> Inl TypeError
        | Some m \<Rightarrow>
            Inr \<lparr>mf_code = 200, mf_msg = ''Success'',
                 mf_data = \<lparr>md_type = t,
                            md_type_name = meta_name m,
                            md_display_name = meta_displayName m,
                            md_total = length manifestComponents,
                            md_components = manifestComponents\<rparr>\<rparr>)"

subsection \<open>Index\<close>

text \<open>The loop over the types, from the given type list; it pushes one category per type.\<close>

fun index_categories :: "ComponentRegistry \<Rightarrow> int list \<Rightarrow> js_error + IndexCategory list" where
  "index_categories registry [] = Inr []"
| "index_categories registry (t # ts) =
    (case COMPONENT_TYPE_META t of
       None \<Rightarrow> Inl TypeError
     | Some meta \<Rightarrow>
         (case index_categories registry ts of
            Inl e \<Rightarrow> Inl e
          | Inr rest \<Rightarrow>
              Inr (\<lparr>ic_count = getCountByType registry t,
                    ic_display_name = meta_displayName meta,
                    ic_manifest_url = ''/components/'' @ meta_manifest meta,
                    ic_name = meta_name meta,
                    ic_type = t\<rparr> # rest)))"

definition generateIndex :: "ComponentRegistry \<Rightarrow> js_error + IndexFile" where
  "generateIndex registry =
    (case index_categories registry [1, 2, 3, 4, 5, 6, 7] of
       Inl e \<Rightarrow> Inl e
     | Inr categories \<Rightarrow>
         Inr \<lparr>if_code = 200, if_msg = ''Success'',
              if_data = \<lparr>ix_categories = categories,
                         ix_total_components = getTotalCount registry\<rparr>\<rparr>)"

subsection \<open>Simulator endpoints\<close>

definition or_empty :: "string option \<Rightarrow> string" where
  "or_empty v = (case v of None \<Rightarrow> [] | Some s \<Rightarrow> s)"

definition toDefaultComponentEntry :: "Component \<Rightarrow> DefaultComponentEntry" where
  "toDefaultComponentEntry component =
    \<lparr>dce_blurb = or_empty (comp_blurb component),
     dce_display_name = comp_display_name component,
     dce_download_url = comp_download_url component,
     dce_file_md5 = comp_file_md5 component,
     dce_file_name = comp_file_name component,
     dce_file_size = comp_file_size component,
     dce_id = comp_id component,
     dce_logo = comp_logo component,
     dce_name = comp_name component,
     dce_type = comp_type component,
     dce_version = comp_version component,
     dce_version_code = comp_version_code component\<rparr>"

definition createEmptyComponent :: DefaultComponentEntry where
  "createEmptyComponent =
    \<lparr>dce_blurb = [], dce_display_name = [], dce_download_url = [], dce_file_md5 = [],
     dce_file_name = [], dce_file_size = JString [], dce_id = 0, dce_logo = [],
     dce_name = [], dce_type = 0, dce_version = [], dce_version_code = 0\<rparr>"

definition toExecuteComponent :: "Component \<Rightarrow> ExecuteComponent" where
  "toExecuteComponent component =
    \<lparr>xc_base_type = 0,
     xc_blurb = or_empty (comp_blurb component),
     xc_display_name = comp_display_name component,
     xc_download_url = comp_download_url component,
     xc_file_md5 = comp_file_md5 component,
     xc_file_name = comp_file_name component,
     xc_file_size = comp_file_size component,
     xc_id = comp_id component,
     xc_is_base = 0,
     xc_is_ui = 1,
     xc_logo = comp_logo component,
     xc_name = comp_name component,
     xc_type = comp_type component,
     xc_version = comp_version component,
     xc_version_code = comp_version_code component\<rparr>"

definition toImagefsRef :: "Imagefs \<Rightarrow> ImagefsRef" where
  "toImagefsRef i =
    \<lparr>ir_display_name = img_display_name i,
     ir_download_url = img_download_url i,
     ir_file_md5 = img_file_md5 i,
     ir_file_name = img_file_name i,
     ir_file_size = img_file_size i,
     ir_id = img_id i,
     ir_logo = img_logo i,
     ir_name = img_name i,
     ir_version = img_version i,
     ir_version_code = img_version_code i\<rparr>"

definition toContainerRef :: "Container \<Rightarrow> ContainerRef" where
  "toContainerRef c =
    \<lparr>cr_blurb = [],
     cr_display_name = cont_display_name c,
     cr_download_url = cont_download_url c,
     cr_file_md5 = cont_file_md5 c,
     cr_file_name = cont_file_name c,
     cr_file_size = cont_file_size c,
     cr_framework = cont_framework c,
     cr_framework_type = cont_framework_type c,
     cr_id = cont_id c,
     cr_is_steam = cont_is_steam c,
     cr_logo = cont_logo c,
     cr_name = cont_name c,
     cr_sub_data = cont_sub_data c,
     cr_version = cont_version c,
     cr_version_code = cont_version_code c\<rparr>"

text \<open>
  \<open>registry.defaults!\<close> only silences the type checker: with \<open>defaults\<close> still
  \<open>null\<close>, reading \<open>defaults.dxvk\<close> raises a \<open>TypeError\<close>.
\<close>

definition generateDefaultComponent ::
    "ComponentRegistry \<Rightarrow> string option \<Rightarrow> string \<Rightarrow> js_error + DefaultComponentFile" where
  "generateDefaultComponent registry timestamp now =
    (case defaults registry of
       None \<Rightarrow> Inl TypeError
     | Some d \<Rightarrow>
         (case (getById registry (dxvk d), getById registry (vkd3d d), getById registry (steamClient d)) of
            (Some dx, Some vk, Some sc) \<Rightarrow>
              Inr \<lparr>dcf_code = 200, dcf_msg = ''Success'',
                   dcf_data = \<lparr>dcd_container = Null,
                               dcd_gpu = Null,
                               dcd_dxvk = toDefaultComponentEntry dx,
                               dcd_vkd3d = toDefaultComponentEntry vk,
                               dcd_translator = createEmptyComponent,
                               dcd_steamClient = toDefaultComponentEntry sc\<rparr>,
                   dcf_time = time_or_now timestamp now\<rparr>
          | _ \<Rightarrow> Inl (Error ''Default components not found in registry'')))"

datatype variant = Generic | Qualcomm

text \<open>The loop over the configured ids: an id that resolves adds one entry, any other adds none.\<close>

fun execute_components :: "ComponentRegistry \<Rightarrow> int list \<Rightarrow> ExecuteComponent list" where
  "execute_components registry [] = []"
| "execute_components registry (i # ids) =
    (case getById registry i of
       Some component \<Rightarrow> toExecuteComponent component # execute_components registry ids
     | None \<Rightarrow> execute_components registry ids)"

text \<open>
  The three non-null assertions at the head of \<open>generateExecuteScript\<close> check
  nothing at run time.  A \<open>null\<close> \<open>defaults\<close> raises when \<open>defaults.container\<close> is
  read (in the search, or in the message of the error); a \<open>null\<close>
  \<open>executionConfig\<close> or \<open>imagefs\<close> raises when the document is assembled.
\<close>

definition generateExecuteScript ::
    "ComponentRegistry \<Rightarrow> variant \<Rightarrow> string option \<Rightarrow> string \<Rightarrow> js_error + ExecuteScriptFile" where
  "generateExecuteScript registry v timestamp now =
    (case defaults registry of
       None \<Rightarrow> Inl TypeError
     | Some d \<Rightarrow>
         (case find (\<lambda>c. cont_id c = container d) (containers registry) of
            None \<Rightarrow> Inl (Error (''Container '' @ number_to_string (container d) @ '' not found''))
          | Some cont \<Rightarrow>
              (let componentIds = (if v = Generic then genericComponentIds d else qualcommComponentIds d);
                   executionContext = (if v = Generic then genericContext d else qualcommContext d);
                   comps = execute_components registry componentIds
               in case executionConfig registry of
                    None \<Rightarrow> Inl TypeError
                  | Some ec \<Rightarrow>
                      (case imagefs registry of
                         None \<Rightarrow> Inl TypeError
                       | Some img \<Rightarrow>
                           Inr \<lparr>esf_code = 200, esf_msg = ''Success'',
                                esf_data = \<lparr>es_audio_driver = ec_audio_driver ec,
                                            es_component = comps,
                                            es_component_ids = componentIds,
                                            es_container = toContainerRef cont,
                                            es_container_id = container d,
                                            es_controller = ec_controller ec,
                                            es_cpu_limitations = ec_cpu_limitations ec,
                                            es_directx_panel = ec_directx_panel ec,
                                            es_environment = ec_environment ec,
                                            es_execution_context = executionContext,
                                            es_imagefs = toImagefsRef img,
                                            es_launch_windowed_mode = ec_launch_windowed_mode ec,
                                            es_start_param = ec_start_param ec,
                                            es_translations = ec_translations ec,
                                            es_video_memory = ec_video_memory ec\<rparr>,
                                esf_time = time_or_now timestamp now\<rparr>))))"

section \<open>Invariant of the registry\<close>

text \<open>
  What every registry built from the constructor satisfies: the configuration is the
  one given to the constructor; the partitions are those of the types 1 to 7; ids
  are unique keys and every stored component sits under its own id with the rewritten
  URL and logo; the partition of a type lists the stored components of that type in
  registration order; the name index points to stored components.
\<close>

definition rewritten :: "BuildConfig \<Rightarrow> Component \<Rightarrow> bool" where
  "rewritten cfg c \<longleftrightarrow>
     comp_download_url c = cdnBaseUrl cfg @ ''/'' @ comp_file_name c \<and> comp_logo c = logoUrl cfg"

definition registry_inv :: "BuildConfig \<Rightarrow> ComponentRegistry \<Rightarrow> bool" where
  "registry_inv cfg r \<longleftrightarrow>
     config r = cfg \<and>
     map fst (componentsByType r) = [1, 2, 3, 4, 5, 6, 7] \<and>
     distinct (map fst (components r)) \<and>
     (\<forall>(k, c) \<in> set (components r). comp_id c = k \<and> rewritten cfg c) \<and>
     (\<forall>t \<in> set [1, 2, 3, 4, 5, 6, 7].
        map_of (componentsByType r) t = Some (filter (\<lambda>c. comp_type c = t) (map snd (components r)))) \<and>
     (\<forall>(n, c) \<in> set (componentsByName r). c \<in> snd ` set (components r))"

section \<open>Sample data\<close>

definition sample_config :: BuildConfig where
  "sample_config = \<lparr>cdnBaseUrl = ''https://cdn.test/files'', logoUrl = ''https://cdn.test/logo.png''\<rparr>"

text \<open>A well-formed source record with the given id, type and name.\<close>

definition sample_component :: "int \<Rightarrow> int \<Rightarrow> string \<Rightarrow> Component" where
  "sample_component i t n =
    \<lparr>comp_id = i, comp_name = n, comp_type = t, comp_version = ''1.0.0'', comp_version_code = 1,
     comp_file_name = n @ ''.tzst'', comp_file_md5 = ''0123456789abcdef0123456789ABCDEF'',
     comp_file_size = JString ''1024'', comp_download_url = ''http://upstream.test/d'',
     comp_logo = ''http://upstream.test/l.png'', comp_display_name = n,
     comp_blurb = None, comp_gpu_range = None, comp_is_steam = None\<rparr>"

definition sample_container :: Container where
  "sample_container =
    \<lparr>cont_id = 1, cont_name = ''wine'', cont_version = ''1.0.0'', cont_version_code = 1,
     cont_file_name = ''wine.tzst'', cont_file_md5 = ''0123456789abcdef0123456789abcdef'',
     cont_file_size = ''2048'', cont_download_url = ''https://cdn.test/files/wine.tzst'',
     cont_logo = ''https://cdn.test/logo.png'', cont_display_name = ''Wine'',
     cont_framework = ''X64'', cont_framework_type = ''stable'', cont_is_steam = 0,
     cont_sub_data = None\<rparr>"

definition sample_imagefs :: Imagefs where
  "sample_imagefs =
    \<lparr>img_id = 1, img_name = ''imagefs'', img_version = ''1.0.0'', img_version_code = 1,
     img_file_name = ''imagefs.txz'', img_file_md5 = ''0123456789abcdef0123456789abcdef'',
     img_file_size = ''4096'', img_download_url = ''https://cdn.test/files/imagefs.txz'',
     img_logo = ''https://cdn.test/logo.png'', img_display_name = ''Firmware'',
     img_upgrade_msg = ''new'', img_blurb = ''base''\<rparr>"

definition sample_executionConfig :: ExecutionConfig where
  "sample_executionConfig =
    \<lparr>ec_translations = \<lparr>tr_box64 = [], tr_fex = []\<rparr>,
     ec_controller = \<lparr>ctl_dinput = True, ctl_xinput = True, ctl_xboxLayout = False, ctl_vibration = True\<rparr>,
     ec_audio_driver = 0, ec_cpu_limitations = 0, ec_video_memory = 0, ec_directx_panel = 0,
     ec_launch_windowed_mode = 0, ec_start_param = [], ec_environment = []\<rparr>"

definition sample_context :: ExecutionContext where
  "sample_context = \<lparr>ctx_params = (''a'', 0, ''b'', 0, ''c'', 0), ctx_script_id = 1, ctx_timestamp = 0\<rparr>"

text \<open>Defaults that select the component with the given id everywhere, with the given id lists.\<close>

definition sample_defaults :: "int \<Rightarrow> int list \<Rightarrow> Defaults" where
  "sample_defaults i ids =
    \<lparr>dxvk = i, vkd3d = i, steamClient = i, container = 1,
     genericComponentIds = ids, qualcommComponentIds = ids,
     genericContext = sample_context, qualcommContext = sample_context\<rparr>"

text \<open>A registry as index.ts builds it: components first, then the four singletons.\<close>

definition sample_registry :: "Component list \<Rightarrow> Defaults \<Rightarrow> ComponentRegistry" where
  "sample_registry cs d =
    registry_after sample_config
      [AddComponents cs, SetContainers [sample_container], SetImagefs (Some sample_imagefs),
       SetDefaults (Some d), SetExecutionConfig (Some sample_executionConfig)]"

text \<open>Source records with defects, and registries that hold them.\<close>

definition sample_bad_md5 :: Component where
  "sample_bad_md5 = (sample_component 7 3 ''a'')\<lparr>comp_file_md5 := ''xyz''\<rparr>"

definition sample_bad_fields :: Component where
  "sample_bad_fields = (sample_component 8 2 [])\<lparr>comp_file_size := JNumber 5, comp_file_name := []\<rparr>"

definition sample_non_digit_size :: Component where
  "sample_non_digit_size = (sample_component 1 3 ''a'')\<lparr>comp_file_size := JString ''12ab''\<rparr>"

text \<open>The component as \<open>addComponent\<close> stores it under the given configuration.\<close>

definition as_stored :: "BuildConfig \<Rightarrow> Component \<Rightarrow> Component" where
  "as_stored cfg c =
     c\<lparr>comp_download_url := cdnBaseUrl cfg @ ''/'' @ comp_file_name c, comp_logo := logoUrl cfg\<rparr>"

text \<open>Two defective components, defaults that point to unknown ids, nothing else loaded.\<close>

definition sample_broken_registry :: ComponentRegistry where
  "sample_broken_registry =
    registry_after sample_config
      [AddComponents [sample_bad_md5, sample_bad_fields], SetDefaults (Some (sample_defaults 99 [7, 96]))]"

text \<open>Everything loaded but the firmware descriptor.\<close>

definition sample_registry_without_imagefs :: ComponentRegistry where
  "sample_registry_without_imagefs =
    registry_after sample_config
      [AddComponents [sample_component 1 3 ''a''], SetContainers [sample_container],
       SetDefaults (Some (sample_defaults 1 [1])), SetExecutionConfig (Some sample_executionConfig)]"

text \<open>All data loaded; the one component has a \<open>file_size\<close> string with letters in it.\<close>

definition sample_registry_non_digit_size :: ComponentRegistry where
  "sample_registry_non_digit_size = sample_registry [sample_non_digit_size] (sample_defaults 1 [1])"

text \<open>All data loaded; the id lists of the defaults name the unknown id 96 next to the known id 1.\<close>

definition sample_full_registry :: ComponentRegistry where
  "sample_full_registry = sample_registry [sample_component 1 3 ''a''] (sample_defaults 1 [96, 1])"

text \<open>All data loaded, but the defaults select the unknown id 99.\<close>

definition sample_registry_unknown_default :: ComponentRegistry where
  "sample_registry_unknown_default = sample_registry [sample_component 1 3 ''a''] (sample_defaults 99 [1])"

declare nat_digits.simps [simp del]

section \<open>Insertion-ordered maps: lemmas\<close>
lemma Map_set_absent: "map_of m k = None \<Longrightarrow> Map_set m k v = m @ [(k, v)]"
  by (induction m) auto

lemma Map_set_keys_present: "map_of m k = Some w \<Longrightarrow> map fst (Map_set m k v) = map fst m"
  by (induction m) auto

lemma Map_set_subset: "set (Map_set m k v) \<subseteq> insert (k, v) (set m)"
  by (induction m) (auto split: if_splits)

lemma map_of_Map_set: "map_of (Map_set m k v) k' = (if k' = k then Some v else map_of m k')"
  by (induction m) auto

section \<open>The invariant holds in every registry built by calls\<close>

lemma new_inv: "registry_inv cfg (new_ComponentRegistry cfg)"
  by (simp add: registry_inv_def new_ComponentRegistry_def)

lemma addComponent_duplicate:
  "map_of (components r) (comp_id c) = Some e \<Longrightarrow> snd (addComponent c r) = r"
  by (simp add: addComponent_def Map_has_def Map_get_def)

lemma addComponent_no_partition:
  "map_of (components r) (comp_id c) = None \<Longrightarrow> map_of (componentsByType r) (comp_type c) = None \<Longrightarrow>
   snd (addComponent c r) =
     r\<lparr>components := components r @
        [(comp_id c, c\<lparr>comp_download_url := cdnBaseUrl (config r) @ ''/'' @ comp_file_name c,
                        comp_logo := logoUrl (config r)\<rparr>)]\<rparr>"
  by (simp add: addComponent_def Map_has_def Map_get_def Let_def Map_set_absent)

lemma addComponent_registered:
  "map_of (components r) (comp_id c) = None \<Longrightarrow> map_of (componentsByType r) (comp_type c) = Some arr \<Longrightarrow>
   c' = c\<lparr>comp_download_url := cdnBaseUrl (config r) @ ''/'' @ comp_file_name c,
                        comp_logo := logoUrl (config r)\<rparr> \<Longrightarrow>
   snd (addComponent c r) =
     r\<lparr>components := components r @ [(comp_id c, c')],
       componentsByType := Map_set (componentsByType r) (comp_type c) (arr @ [c']),
       componentsByName := Map_set (componentsByName r) (comp_name c) c'\<rparr>"
  by (simp add: addComponent_def Map_has_def Map_get_def Let_def Map_set_absent)


lemma inv_config: "registry_inv cfg r \<Longrightarrow> config r = cfg"
  and inv_keys: "registry_inv cfg r \<Longrightarrow> map fst (componentsByType r) = [1, 2, 3, 4, 5, 6, 7]"
  and inv_distinct: "registry_inv cfg r \<Longrightarrow> distinct (map fst (components r))"
  and inv_stored: "registry_inv cfg r \<Longrightarrow> (k, c) \<in> set (components r) \<Longrightarrow> comp_id c = k \<and> rewritten cfg c"
  and inv_partition: "registry_inv cfg r \<Longrightarrow> t \<in> set [1, 2, 3, 4, 5, 6, 7] \<Longrightarrow>
        map_of (componentsByType r) t = Some (filter (\<lambda>c. comp_type c = t) (map snd (components r)))"
  and inv_names: "registry_inv cfg r \<Longrightarrow> (n, c) \<in> set (componentsByName r) \<Longrightarrow> c \<in> snd ` set (components r)"
  unfolding registry_inv_def by blast+

lemma registry_invI:
  assumes "config r = cfg"
    and "map fst (componentsByType r) = [1, 2, 3, 4, 5, 6, 7]"
    and "distinct (map fst (components r))"
    and "\<And>k c. (k, c) \<in> set (components r) \<Longrightarrow> comp_id c = k \<and> rewritten cfg c"
    and "\<And>t. t \<in> set [1, 2, 3, 4, 5, 6, 7] \<Longrightarrow>
        map_of (componentsByType r) t = Some (filter (\<lambda>c. comp_type c = t) (map snd (components r)))"
    and "\<And>n c. (n, c) \<in> set (componentsByName r) \<Longrightarrow> c \<in> snd ` set (components r)"
  shows "registry_inv cfg r"
  unfolding registry_inv_def using assms by blast

lemma partition_key_iff:
  assumes "registry_inv cfg r"
  shows "map_of (componentsByType r) t = None \<longleftrightarrow> t \<notin> set [1, 2, 3, 4, 5, 6, 7]"
proof -
  have "map_of (componentsByType r) t = None \<longleftrightarrow> t \<notin> set (map fst (componentsByType r))"
    by (simp add: map_of_eq_None_iff)
  then show ?thesis using inv_keys[OF assms] by simp
qed

lemma addComponent_inv:
  assumes inv: "registry_inv cfg r"
  shows "registry_inv cfg (snd (addComponent c r))"
proof (cases "map_of (components r) (comp_id c)")
  case (Some e)
  then show ?thesis using inv by (simp add: addComponent_duplicate)
next
  case None
  define c' where "c' = c\<lparr>comp_download_url := cdnBaseUrl (config r) @ ''/'' @ comp_file_name c, comp_logo := logoUrl (config r)\<rparr>"
  have notin: "comp_id c \<notin> fst ` set (components r)"
    using None by (simp add: map_of_eq_None_iff)
  have rw: "rewritten cfg c'" and id': "comp_id c' = comp_id c" and ty': "comp_type c' = comp_type c"
    using inv_config[OF inv] by (simp_all add: rewritten_def c'_def)
  have dist: "distinct (map fst (components r @ [(comp_id c, c')]))"
    using inv_distinct[OF inv] notin by simp
  have stored: "comp_id x = k \<and> rewritten cfg x" if "(k, x) \<in> set (components r @ [(comp_id c, c')])" for k x
    using that inv_stored[OF inv, of k x] rw id' by auto
  show ?thesis
  proof (cases "map_of (componentsByType r) (comp_type c)")
    case N2: None
    have tnot: "comp_type c \<notin> set [1, 2, 3, 4, 5, 6, 7]"
      using N2 partition_key_iff[OF inv] by blast
    have res: "snd (addComponent c r) = r\<lparr>components := components r @ [(comp_id c, c')]\<rparr>"
      unfolding c'_def using None N2 by (rule addComponent_no_partition)
    show ?thesis
    proof (rule registry_invI)
      show "config (snd (addComponent c r)) = cfg" using inv_config[OF inv] by (simp add: res)
      show "map fst (componentsByType (snd (addComponent c r))) = [1, 2, 3, 4, 5, 6, 7]"
        using inv_keys[OF inv] by (simp add: res)
      show "distinct (map fst (components (snd (addComponent c r))))" using dist by (simp add: res)
      show "comp_id x = k \<and> rewritten cfg x" if "(k, x) \<in> set (components (snd (addComponent c r)))" for k x
        using that stored[of k x] by (simp add: res)
      show "map_of (componentsByType (snd (addComponent c r))) t =
            Some (filter (\<lambda>c. comp_type c = t) (map snd (components (snd (addComponent c r)))))"
        if "t \<in> set [1, 2, 3, 4, 5, 6, 7]" for t
      proof -
        have "comp_type c' \<noteq> t" using that tnot ty' by metis
        then show ?thesis using inv_partition[OF inv that] by (simp add: res)
      qed
      show "x \<in> snd ` set (components (snd (addComponent c r)))"
        if "(n, x) \<in> set (componentsByName (snd (addComponent c r)))" for n x
        using that inv_names[OF inv, of n x] by (auto simp add: res)
    qed
  next
    case S2: (Some arr)
    have tin: "comp_type c \<in> set [1, 2, 3, 4, 5, 6, 7]"
      using S2 partition_key_iff[OF inv, of "comp_type c"] by auto
    have arr: "arr = filter (\<lambda>x. comp_type x = comp_type c) (map snd (components r))"
      using inv_partition[OF inv tin] S2 by simp
    have res: "snd (addComponent c r) = r\<lparr>components := components r @ [(comp_id c, c')],
         componentsByType := Map_set (componentsByType r) (comp_type c) (arr @ [c']),
         componentsByName := Map_set (componentsByName r) (comp_name c) c'\<rparr>"
      using None S2 c'_def by (rule addComponent_registered)
    show ?thesis
    proof (rule registry_invI)
      show "config (snd (addComponent c r)) = cfg" using inv_config[OF inv] by (simp add: res)
      show "map fst (componentsByType (snd (addComponent c r))) = [1, 2, 3, 4, 5, 6, 7]"
        using inv_keys[OF inv] Map_set_keys_present[OF S2] by (simp add: res)
      show "distinct (map fst (components (snd (addComponent c r))))" using dist by (simp add: res)
      show "comp_id x = k \<and> rewritten cfg x" if "(k, x) \<in> set (components (snd (addComponent c r)))" for k x
        using that stored[of k x] by (simp add: res)
      show "map_of (componentsByType (snd (addComponent c r))) t =
            Some (filter (\<lambda>c. comp_type c = t) (map snd (components (snd (addComponent c r)))))"
        if "t \<in> set [1, 2, 3, 4, 5, 6, 7]" for t
      proof (cases "t = comp_type c")
        case True
        then show ?thesis using arr ty' by (simp add: res map_of_Map_set)
      next
        case False
        then have "comp_type c' \<noteq> t" using ty' by simp
        then show ?thesis using False inv_partition[OF inv that] by (simp add: res map_of_Map_set)
      qed
      show "x \<in> snd ` set (components (snd (addComponent c r)))"
        if "(n, x) \<in> set (componentsByName (snd (addComponent c r)))" for n x
      proof -
        have "(n, x) \<in> insert (comp_name c, c') (set (componentsByName r))"
          using that Map_set_subset[of "componentsByName r" "comp_name c" c'] by (auto simp add: res)
        then show ?thesis using inv_names[OF inv, of n x] by (auto simp add: res)
      qed
    qed
  qed
qed


lemma snd_addComponents_Cons:
  "snd (addComponents (c # cs) r) =
    (case fst (addComponent c r) of
       Raised e \<Rightarrow> snd (addComponent c r)
     | _ \<Rightarrow> snd (addComponents cs (snd (addComponent c r))))"
  by (cases "addComponent c r") (auto split: outcome.splits prod.splits)

lemma addComponents_inv: "registry_inv cfg r \<Longrightarrow> registry_inv cfg (snd (addComponents cs r))"
proof (induction cs arbitrary: r)
  case Nil
  then show ?case by simp
next
  case (Cons c cs)
  have step: "registry_inv cfg (snd (addComponent c r))" using Cons.prems by (rule addComponent_inv)
  show ?case unfolding snd_addComponents_Cons using step Cons.IH[OF step]
    by (simp split: outcome.splits)
qed

lemma registry_inv_cong:
  assumes "components r' = components r" and "componentsByType r' = componentsByType r"
    and "componentsByName r' = componentsByName r" and "config r' = config r"
  shows "registry_inv cfg r' = registry_inv cfg r"
  by (simp only: registry_inv_def assms)

lemma perform_inv:
  assumes "registry_inv cfg r"
  shows "registry_inv cfg (perform r x)"
proof (cases x)
  case (AddComponent c)
  then show ?thesis using assms by (simp add: addComponent_inv)
next
  case (AddComponents cs)
  then show ?thesis using assms by (simp add: addComponents_inv)
next
  case (SetContainers v)
  have "registry_inv cfg (r\<lparr>containers := v\<rparr>) = registry_inv cfg r"
    by (rule registry_inv_cong) simp_all
  then show ?thesis using assms SetContainers by simp
next
  case (SetImagefs v)
  have "registry_inv cfg (r\<lparr>imagefs := v\<rparr>) = registry_inv cfg r"
    by (rule registry_inv_cong) simp_all
  then show ?thesis using assms SetImagefs by simp
next
  case (SetDefaults v)
  have "registry_inv cfg (r\<lparr>defaults := v\<rparr>) = registry_inv cfg r"
    by (rule registry_inv_cong) simp_all
  then show ?thesis using assms SetDefaults by simp
next
  case (SetExecutionConfig v)
  have "registry_inv cfg (r\<lparr>executionConfig := v\<rparr>) = registry_inv cfg r"
    by (rule registry_inv_cong) simp_all
  then show ?thesis using assms SetExecutionConfig by simp
qed

lemma foldl_perform_inv: "registry_inv cfg r \<Longrightarrow> registry_inv cfg (foldl perform r calls)"
  by (induction calls arbitrary: r) (simp_all add: perform_inv)

lemma registry_after_inv: "registry_inv cfg (registry_after cfg calls)"
  unfolding registry_after_def by (rule foldl_perform_inv[OF new_inv])

lemma inv_getById: "registry_inv cfg r \<Longrightarrow> getById r i = Some x \<Longrightarrow> rewritten cfg x \<and> comp_id x = i"
  unfolding getById_def Map_get_def using inv_stored[of cfg r i x] by (auto dest: map_of_SomeD)

lemma inv_getAll: "registry_inv cfg r \<Longrightarrow> x \<in> set (getAllComponents r) \<Longrightarrow> rewritten cfg x"
  unfolding getAllComponents_def Map_values_def using inv_stored[of cfg r _ x] by auto

lemma inv_getByType:
  assumes "registry_inv cfg r"
  shows "getByType r t = (if t \<in> set [1, 2, 3, 4, 5, 6, 7] then filter (\<lambda>c. comp_type c = t) (getAllComponents r) else [])"
proof (cases "t \<in> set [1, 2, 3, 4, 5, 6, 7]")
  case True
  then show ?thesis using inv_partition[OF assms True]
    by (simp add: getByType_def Map_get_def getAllComponents_def Map_values_def)
next
  case False
  then have "map_of (componentsByType r) t = None" using partition_key_iff[OF assms] by blast
  then show ?thesis using False by (simp add: getByType_def Map_get_def)
qed

lemma inv_getByName: "registry_inv cfg r \<Longrightarrow> getByName r n = Some x \<Longrightarrow> rewritten cfg x"
proof -
  assume inv: "registry_inv cfg r" and g: "getByName r n = Some x"
  have "(n, x) \<in> set (componentsByName r)" using g by (auto simp: getByName_def Map_get_def dest: map_of_SomeD)
  then have "x \<in> snd ` set (components r)" using inv_names[OF inv] by blast
  then show ?thesis using inv_stored[OF inv] by auto
qed

lemma getById_after_add:
  "\<not> Map_has (components r) (comp_id c) \<Longrightarrow>
    getById (snd (addComponent c r)) (comp_id c) =
      Some (c\<lparr>comp_download_url := cdnBaseUrl (config r) @ ''/'' @ comp_file_name c, comp_logo := logoUrl (config r)\<rparr>)"
  by (cases "map_of (componentsByType r) (comp_type c)")
     (simp_all add: Map_has_def addComponent_no_partition addComponent_registered getById_def Map_get_def map_add_def)

text \<open>Unfolding these evaluates the registry operations on the sample data.\<close>

lemmas sample_eval = registry_after_def new_ComponentRegistry_def addComponent_def Map_has_def Map_get_def
  sample_component_def sample_config_def Let_def getById_def

text \<open>
  Claim C1.  A component whose id is new is stored with \<open>download_url\<close> equal to the
  configured CDN base, a slash and its own \<open>file_name\<close>, and with the configured logo,
  whatever URL and logo it came with.  After any sequence of calls, every component that
  \<open>getById\<close>, \<open>getByName\<close>, \<open>getByType\<close> or \<open>getAllComponents\<close> returns has
  that URL and that logo.
\<close>

theorem registered_components_rewritten:
  "(\<not> Map_has (components r) (comp_id c) \<longrightarrow>
      getById (snd (addComponent c r)) (comp_id c) =
        Some (c\<lparr>comp_download_url := cdnBaseUrl (config r) @ ''/'' @ comp_file_name c,
                comp_logo := logoUrl (config r)\<rparr>))
   \<and> (getById (registry_after cfg calls) i = Some x
        \<or> getByName (registry_after cfg calls) n = Some x
        \<or> x \<in> set (getByType (registry_after cfg calls) t)
        \<or> x \<in> set (getAllComponents (registry_after cfg calls))
      \<longrightarrow> comp_download_url x = cdnBaseUrl cfg @ ''/'' @ comp_file_name x \<and> comp_logo x = logoUrl cfg)"
proof (intro conjI impI)
  assume "\<not> Map_has (components r) (comp_id c)"
  then show "getById (snd (addComponent c r)) (comp_id c) =
        Some (c\<lparr>comp_download_url := cdnBaseUrl (config r) @ ''/'' @ comp_file_name c,
                comp_logo := logoUrl (config r)\<rparr>)" by (rule getById_after_add)
next
  let ?r = "registry_after cfg calls"
  have inv: "registry_inv cfg ?r" by (rule registry_after_inv)
  assume "getById ?r i = Some x \<or> getByName ?r n = Some x \<or> x \<in> set (getByType ?r t) \<or> x \<in> set (getAllComponents ?r)"
  then have "rewritten cfg x"
    using inv_getById[OF inv] inv_getByName[OF inv] inv_getAll[OF inv] inv_getByType[OF inv, of t]
    by (auto split: if_splits)
  then show "comp_download_url x = cdnBaseUrl cfg @ ''/'' @ comp_file_name x" and "comp_logo x = logoUrl cfg"
    by (simp_all add: rewritten_def)
qed

theorem registered_components_rewritten_witness:
  "\<not> Map_has (components (new_ComponentRegistry sample_config)) (comp_id (sample_component 1 3 ''a''))
   \<and> getById (snd (addComponent (sample_component 1 3 ''a'') (new_ComponentRegistry sample_config))) 1 =
       Some ((sample_component 1 3 ''a'')
              \<lparr>comp_download_url := ''https://cdn.test/files/a.tzst'', comp_logo := ''https://cdn.test/logo.png''\<rparr>)
   \<and> getById (registry_after sample_config [AddComponent (sample_component 1 3 ''a'')]) 1 =
       Some ((sample_component 1 3 ''a'')
              \<lparr>comp_download_url := ''https://cdn.test/files/a.tzst'', comp_logo := ''https://cdn.test/logo.png''\<rparr>)
   \<and> comp_download_url ((sample_component 1 3 ''a'')
              \<lparr>comp_download_url := ''https://cdn.test/files/a.tzst'', comp_logo := ''https://cdn.test/logo.png''\<rparr>)
       = cdnBaseUrl sample_config @ ''/'' @ ''a.tzst''"
  using registered_components_rewritten
    [of "new_ComponentRegistry sample_config" "sample_component 1 3 ''a''" sample_config
        "[AddComponent (sample_component 1 3 ''a'')]" 1
        "(sample_component 1 3 ''a'')
              \<lparr>comp_download_url := ''https://cdn.test/files/a.tzst'', comp_logo := ''https://cdn.test/logo.png''\<rparr>"
        "''a''" 3]
  by (simp add: sample_eval)

text \<open>
  Claim C2.  Adding a component whose id is present changes nothing in the registry and
  raises nothing: the call ends with the warning.  Registering a second component under
  the id of one just registered leaves the registry as the first registration left it,
  and \<open>getById\<close> still returns the first.
\<close>

theorem duplicate_id_keeps_first:
  "(Map_has (components r) (comp_id c) \<longrightarrow> (\<exists>w. addComponent c r = (Warned w, r)))
   \<and> (\<not> Map_has (components r) (comp_id c1) \<and> comp_id c2 = comp_id c1 \<longrightarrow>
        snd (addComponent c2 (snd (addComponent c1 r))) = snd (addComponent c1 r)
        \<and> (\<exists>w. fst (addComponent c2 (snd (addComponent c1 r))) = Warned w)
        \<and> getById (snd (addComponent c2 (snd (addComponent c1 r)))) (comp_id c1) =
            Some (c1\<lparr>comp_download_url := cdnBaseUrl (config r) @ ''/'' @ comp_file_name c1,
                     comp_logo := logoUrl (config r)\<rparr>))"
proof (intro conjI impI)
  assume "Map_has (components r) (comp_id c)"
  then show "\<exists>w. addComponent c r = (Warned w, r)"
    by (auto simp add: addComponent_def Map_has_def Map_get_def)
next
  assume a: "\<not> Map_has (components r) (comp_id c1) \<and> comp_id c2 = comp_id c1"
  let ?r1 = "snd (addComponent c1 r)"
  have g: "getById ?r1 (comp_id c1) =
            Some (c1\<lparr>comp_download_url := cdnBaseUrl (config r) @ ''/'' @ comp_file_name c1,
                     comp_logo := logoUrl (config r)\<rparr>)"
    using a by (simp add: getById_after_add)
  then have h: "Map_has (components ?r1) (comp_id c2)"
    using a by (simp add: getById_def Map_get_def Map_has_def)
  then have w: "\<exists>w. addComponent c2 ?r1 = (Warned w, ?r1)"
    by (auto simp add: addComponent_def Map_has_def Map_get_def)
  from w show "snd (addComponent c2 ?r1) = ?r1" by auto
  from w show "\<exists>w. fst (addComponent c2 ?r1) = Warned w" by auto
  from w g show "getById (snd (addComponent c2 ?r1)) (comp_id c1) =
            Some (c1\<lparr>comp_download_url := cdnBaseUrl (config r) @ ''/'' @ comp_file_name c1,
                     comp_logo := logoUrl (config r)\<rparr>)" by auto
qed

theorem duplicate_id_keeps_first_witness:
  "Map_has (components (registry_after sample_config [AddComponent (sample_component 1 3 ''a'')]))
           (comp_id (sample_component 1 4 ''b''))
   \<and> snd (addComponent (sample_component 1 4 ''b'')
            (registry_after sample_config [AddComponent (sample_component 1 3 ''a'')]))
       = registry_after sample_config [AddComponent (sample_component 1 3 ''a'')]
   \<and> \<not> Map_has (components (registry_after sample_config [AddComponent (sample_component 1 3 ''a'')]))
              (comp_id (sample_component 2 3 ''c''))
   \<and> getById (snd (addComponent (sample_component 2 4 ''d'')
                 (snd (addComponent (sample_component 2 3 ''c'')
                   (registry_after sample_config [AddComponent (sample_component 1 3 ''a'')]))))) 2
       = Some ((sample_component 2 3 ''c'')
              \<lparr>comp_download_url := ''https://cdn.test/files/c.tzst'', comp_logo := ''https://cdn.test/logo.png''\<rparr>)"
proof -
  let ?r = "registry_after sample_config [AddComponent (sample_component 1 3 ''a'')]"
  have h1: "Map_has (components ?r) (comp_id (sample_component 1 4 ''b''))"
    by (simp add: sample_eval)
  have h2: "\<not> Map_has (components ?r) (comp_id (sample_component 2 3 ''c''))
            \<and> comp_id (sample_component 2 4 ''d'') = comp_id (sample_component 2 3 ''c'')"
    by (simp add: sample_eval)
  have cfg: "config ?r = sample_config"
    by (simp add: sample_eval)
  from h1 h2 cfg duplicate_id_keeps_first
    [of ?r "sample_component 1 4 ''b''" "sample_component 2 3 ''c''" "sample_component 2 4 ''d''"]
  show ?thesis
    by (auto simp add: sample_component_def sample_config_def)
qed

lemma count_one: "distinct ts \<Longrightarrow> a \<in> set ts \<Longrightarrow> (\<Sum>t\<leftarrow>ts. if a = t then 1 else 0) = (1::nat)"
proof (induction ts)
  case Nil
  then show ?case by simp
next
  case (Cons t ts)
  have z: "a \<notin> set ts \<Longrightarrow> (\<Sum>t\<leftarrow>ts. if a = t then 1 else 0) = (0::nat)"
    by (induction ts) auto
  show ?case using Cons z by (cases "a = t") auto
qed

lemma count_partition:
  "distinct ts \<Longrightarrow> \<forall>x \<in> set xs. f x \<in> set ts \<Longrightarrow>
    (\<Sum>t\<leftarrow>ts. length (filter (\<lambda>x. f x = t) xs)) = length xs"
proof (induction xs)
  case Nil
  then show ?case by simp
next
  case (Cons x xs)
  have "(\<Sum>t\<leftarrow>ts. length (filter (\<lambda>x. f x = t) (x # xs)))
        = (\<Sum>t\<leftarrow>ts. (if f x = t then 1 else 0) + length (filter (\<lambda>x. f x = t) xs))"
    by (rule arg_cong[where f = sum_list]) simp
  also have "\<dots> = (\<Sum>t\<leftarrow>ts. if f x = t then 1 else 0) + (\<Sum>t\<leftarrow>ts. length (filter (\<lambda>x. f x = t) xs))"
    by (simp add: sum_list_addf)
  also have "\<dots> = 1 + length xs" using Cons count_one[of ts "f x"] by simp
  finally show ?case by simp
qed

lemma addComponent_stored:
  "(k, x) \<in> set (components (snd (addComponent c r))) \<Longrightarrow>
     (k, x) \<in> set (components r) \<or> comp_type x = comp_type c"
  apply (cases "map_of (components r) (comp_id c)")
   apply (cases "map_of (componentsByType r) (comp_type c)")
    apply (auto simp add: addComponent_duplicate addComponent_no_partition addComponent_registered)
  done

lemma addComponents_stored:
  "(k, x) \<in> set (components (snd (addComponents cs r))) \<Longrightarrow>
     (k, x) \<in> set (components r) \<or> comp_type x \<in> comp_type ` set cs"
proof (induction cs arbitrary: r)
  case Nil
  then show ?case by simp
next
  case (Cons c cs)
  let ?r1 = "snd (addComponent c r)"
  have "(k, x) \<in> set (components ?r1) \<or> (k, x) \<in> set (components (snd (addComponents cs ?r1)))"
    using Cons.prems unfolding snd_addComponents_Cons by (simp split: outcome.splits)
  then have "(k, x) \<in> set (components ?r1) \<or> comp_type x \<in> comp_type ` set cs"
    using Cons.IH[of ?r1] by blast
  then show ?case using addComponent_stored[of k x c r] by auto
qed

lemma perform_stored:
  "(k, x) \<in> set (components (perform r call)) \<Longrightarrow>
     (k, x) \<in> set (components r) \<or> comp_type x \<in> comp_type ` set (offered call)"
  using addComponent_stored[of k x _ r] addComponents_stored[of k x _ r]
  by (cases call) auto

lemma foldl_perform_stored:
  "(k, x) \<in> set (components (foldl perform r calls)) \<Longrightarrow>
     (k, x) \<in> set (components r) \<or> comp_type x \<in> comp_type ` set (concat (map offered calls))"
proof (induction calls arbitrary: r)
  case Nil
  then show ?case by simp
next
  case (Cons call calls)
  from Cons.IH[of "perform r call"] Cons.prems perform_stored[of k x r call]
  show ?case by auto
qed

lemma registry_after_types:
  assumes "\<forall>c \<in> set (concat (map offered calls)). 1 \<le> comp_type c \<and> comp_type c \<le> 7"
  shows "\<forall>x \<in> set (getAllComponents (registry_after cfg calls)). comp_type x \<in> set [1, 2, 3, 4, 5, 6, 7]"
proof
  fix x assume "x \<in> set (getAllComponents (registry_after cfg calls))"
  then obtain k where "(k, x) \<in> set (components (foldl perform (new_ComponentRegistry cfg) calls))"
    by (auto simp add: getAllComponents_def Map_values_def registry_after_def)
  then have "comp_type x \<in> comp_type ` set (concat (map offered calls))"
    using foldl_perform_stored[of k x "new_ComponentRegistry cfg" calls]
    by (simp add: new_ComponentRegistry_def)
  then obtain c where "c \<in> set (concat (map offered calls))" and "comp_type x = comp_type c" by auto
  then have "1 \<le> comp_type x \<and> comp_type x \<le> 7" using assms by auto
  then show "comp_type x \<in> set [1, 2, 3, 4, 5, 6, 7]" by auto
qed

lemma count_invariant:
  assumes "\<forall>c \<in> set (concat (map offered calls)). 1 \<le> comp_type c \<and> comp_type c \<le> 7"
  shows "getTotalCount (registry_after cfg calls)
           = (\<Sum>t\<leftarrow>[1, 2, 3, 4, 5, 6, 7]. getCountByType (registry_after cfg calls) t)"
proof -
  let ?r = "registry_after cfg calls"
  have inv: "registry_inv cfg ?r" by (rule registry_after_inv)
  have "(\<Sum>t\<leftarrow>[1, 2, 3, 4, 5, 6, 7]. getCountByType ?r t)
        = (\<Sum>t\<leftarrow>[1, 2, 3, 4, 5, 6, 7]. length (filter (\<lambda>c. comp_type c = t) (getAllComponents ?r)))"
    by (simp add: getCountByType_def inv_getByType[OF inv])
  also have "\<dots> = length (getAllComponents ?r)"
    by (rule count_partition) (simp, rule registry_after_types[OF assms])
  finally show ?thesis by (simp add: getTotalCount_def getAllComponents_def Map_size_def Map_values_def)
qed

lemma registry_after_snoc:
  "registry_after cfg (calls @ [AddComponent c]) = snd (addComponent c (registry_after cfg calls))"
  by (simp add: registry_after_def)

text \<open>
  Claim C10.  When every component handed to the registry has a type from 1 to 7, then
  after any sequence of calls (duplicates included) the total count is the sum of the
  seven per-type counts, and \<open>getAllComponents\<close> has that many elements; one more
  \<open>addComponent\<close> with such a component, new or duplicate, keeps it so.
\<close>

theorem total_count_is_sum_of_type_counts:
  assumes "\<forall>c \<in> set (concat (map offered calls)). 1 \<le> comp_type c \<and> comp_type c \<le> 7"
  shows "getTotalCount (registry_after cfg calls)
           = (\<Sum>t\<leftarrow>[1, 2, 3, 4, 5, 6, 7]. getCountByType (registry_after cfg calls) t)
         \<and> length (getAllComponents (registry_after cfg calls)) = getTotalCount (registry_after cfg calls)
         \<and> (1 \<le> comp_type c \<and> comp_type c \<le> 7 \<longrightarrow>
              getTotalCount (snd (addComponent c (registry_after cfg calls)))
                = (\<Sum>t\<leftarrow>[1, 2, 3, 4, 5, 6, 7]. getCountByType (snd (addComponent c (registry_after cfg calls))) t))"
proof (intro conjI impI)
  show "getTotalCount (registry_after cfg calls)
           = (\<Sum>t\<leftarrow>[1, 2, 3, 4, 5, 6, 7]. getCountByType (registry_after cfg calls) t)"
    using assms by (rule count_invariant)
  show "length (getAllComponents (registry_after cfg calls)) = getTotalCount (registry_after cfg calls)"
    by (simp add: getTotalCount_def getAllComponents_def Map_size_def Map_values_def)
  assume "1 \<le> comp_type c \<and> comp_type c \<le> 7"
  then have "\<forall>x \<in> set (concat (map offered (calls @ [AddComponent c]))). 1 \<le> comp_type x \<and> comp_type x \<le> 7"
    using assms by auto
  then have "getTotalCount (registry_after cfg (calls @ [AddComponent c]))
           = (\<Sum>t\<leftarrow>[1, 2, 3, 4, 5, 6, 7]. getCountByType (registry_after cfg (calls @ [AddComponent c])) t)"
    by (rule count_invariant)
  then show "getTotalCount (snd (addComponent c (registry_after cfg calls)))
                = (\<Sum>t\<leftarrow>[1, 2, 3, 4, 5, 6, 7]. getCountByType (snd (addComponent c (registry_after cfg calls))) t)"
    by (simp only: registry_after_snoc)
qed

theorem total_count_is_sum_of_type_counts_witness:
  "map comp_type (concat (map offered [AddComponents [sample_component 5 3 ''a'', sample_component 9 3 ''b''],
                     AddComponent (sample_component 2 1 ''c'')]))
     = [3, 3, 1]
   \<and> getTotalCount (registry_after sample_config
         [AddComponents [sample_component 5 3 ''a'', sample_component 9 3 ''b''],
          AddComponent (sample_component 2 1 ''c'')]) = 3
   \<and> (\<Sum>t\<leftarrow>[1, 2, 3, 4, 5, 6, 7]. getCountByType (registry_after sample_config
         [AddComponents [sample_component 5 3 ''a'', sample_component 9 3 ''b''],
          AddComponent (sample_component 2 1 ''c'')]) t) = 3
   \<and> length (getAllComponents (registry_after sample_config
         [AddComponents [sample_component 5 3 ''a'', sample_component 9 3 ''b''],
          AddComponent (sample_component 2 1 ''c'')])) = 3
   \<and> comp_type (sample_component 5 1 ''dup'') = 1
   \<and> getTotalCount (snd (addComponent (sample_component 5 1 ''dup'') (registry_after sample_config
         [AddComponents [sample_component 5 3 ''a'', sample_component 9 3 ''b''],
          AddComponent (sample_component 2 1 ''c'')]))) = 3
   \<and> (\<Sum>t\<leftarrow>[1, 2, 3, 4, 5, 6, 7]. getCountByType
         (snd (addComponent (sample_component 5 1 ''dup'') (registry_after sample_config
           [AddComponents [sample_component 5 3 ''a'', sample_component 9 3 ''b''],
            AddComponent (sample_component 2 1 ''c'')]))) t) = 3"
proof -
  let ?calls = "[AddComponents [sample_component 5 3 ''a'', sample_component 9 3 ''b''],
          AddComponent (sample_component 2 1 ''c'')]"
  have ty: "map comp_type (concat (map offered ?calls)) = [3, 3, 1]"
    "comp_type (sample_component 5 1 ''dup'') = 1"
    by (simp_all add: sample_component_def)
  have h: "\<forall>c \<in> set (concat (map offered ?calls)). 1 \<le> comp_type c \<and> comp_type c \<le> 7"
    by (simp add: sample_component_def)
  have t: "getTotalCount (registry_after sample_config ?calls) = 3"
    "getTotalCount (snd (addComponent (sample_component 5 1 ''dup'') (registry_after sample_config ?calls))) = 3"
    by (simp_all add: sample_eval getTotalCount_def Map_size_def)
  from ty t total_count_is_sum_of_type_counts[OF h, of sample_config "sample_component 5 1 ''dup''"]
  show ?thesis by simp
qed

text \<open>
  The condition on the types in claim C10 is needed: a component of type 0 is written to
  the id index before the missing partition raises, and the counts differ.
\<close>

lemma type_outside_range_breaks_count:
  "fst (addComponent (sample_component 1 0 ''a'') (new_ComponentRegistry sample_config)) = Raised TypeError
   \<and> getTotalCount (registry_after sample_config [AddComponent (sample_component 1 0 ''a'')]) = 1
   \<and> (\<Sum>t\<leftarrow>[1, 2, 3, 4, 5, 6, 7].
         getCountByType (registry_after sample_config [AddComponent (sample_component 1 0 ''a'')]) t) = 0
   \<and> getByName (registry_after sample_config [AddComponent (sample_component 1 0 ''a'')]) ''a'' = None"
  by (simp add: sample_eval getTotalCount_def Map_size_def getCountByType_def getByType_def getByName_def)

section \<open>Sorting: lemmas\<close>

lemma Array_sort_Cons: "Array_sort f (x # xs) = insert_by f x (Array_sort f xs)"
  by (simp add: Array_sort_def)

lemma mset_insert_by: "mset (insert_by f x ys) = add_mset x (mset ys)"
  by (induction ys) auto

lemma mset_Array_sort: "mset (Array_sort f xs) = mset xs"
  by (induction xs) (simp_all add: Array_sort_def mset_insert_by)

lemma set_insert_by: "set (insert_by f x ys) = insert x (set ys)"
  by (induction ys) auto

lemma sorted_insert_by_id:
  "sorted_wrt (\<lambda>a b. comp_id b \<le> comp_id a) ys \<Longrightarrow>
   sorted_wrt (\<lambda>a b. comp_id b \<le> comp_id a) (insert_by (\<lambda>a b. comp_id b - comp_id a) x ys)"
  by (induction ys) (auto simp add: set_insert_by)

lemma sorted_sortByIdDescending:
  "sorted_wrt (\<lambda>a b. comp_id b \<le> comp_id a) (sortByIdDescending cs)"
  unfolding sortByIdDescending_def
  by (induction cs) (simp_all add: Array_sort_Cons sorted_insert_by_id, simp add: Array_sort_def)

lemma filter_insert_by_id:
  "filter (\<lambda>c. comp_id c = k) (insert_by (\<lambda>a b. comp_id b - comp_id a) x ys) =
   filter (\<lambda>c. comp_id c = k) (x # ys)"
  by (induction ys) auto

lemma stable_sortByIdDescending:
  "filter (\<lambda>c. comp_id c = k) (sortByIdDescending cs) = filter (\<lambda>c. comp_id c = k) cs"
  unfolding sortByIdDescending_def
proof (induction cs)
  case Nil
  show ?case by (simp add: Array_sort_def)
next
  case (Cons c cs)
  have "filter (\<lambda>c. comp_id c = k) (Array_sort (\<lambda>a b. comp_id b - comp_id a) (c # cs))
        = filter (\<lambda>c. comp_id c = k) (c # Array_sort (\<lambda>a b. comp_id b - comp_id a) cs)"
    unfolding Array_sort_Cons by (rule filter_insert_by_id)
  then show ?case using Cons by simp
qed

text \<open>
  Claim C7.  \<open>sortByIdDescending\<close> returns a permutation of its argument, ordered by id
  descending, and stable: the elements of any one id keep their relative order.
\<close>

theorem sortByIdDescending_sorted_stable_permutation:
  "mset (sortByIdDescending cs) = mset cs
   \<and> sorted_wrt (\<lambda>a b. comp_id a \<ge> comp_id b) (sortByIdDescending cs)
   \<and> filter (\<lambda>c. comp_id c = k) (sortByIdDescending cs) = filter (\<lambda>c. comp_id c = k) cs"
  using sorted_sortByIdDescending[of cs] stable_sortByIdDescending[of k cs]
  by (simp add: sortByIdDescending_def mset_Array_sort)

section \<open>Manifests\<close>

lemma inv_distinct_ids:
  assumes "registry_inv cfg r"
  shows "distinct (map comp_id (getAllComponents r))"
proof -
  have "map (comp_id \<circ> snd) (components r) = map fst (components r)"
    by (rule map_cong[OF refl]) (use inv_stored[OF assms] in auto)
  then have "map comp_id (getAllComponents r) = map fst (components r)"
    by (simp add: getAllComponents_def Map_values_def)
  then show ?thesis using inv_distinct[OF assms] by simp
qed

lemma strictly_descending:
  "sorted_wrt (\<lambda>a b. f b \<le> (f a :: int)) xs \<Longrightarrow> distinct (map f xs) \<Longrightarrow> sorted_wrt (\<lambda>a b. f b < f a) xs"
proof (induction xs)
  case Nil
  show ?case by simp
next
  case (Cons a xs)
  have "f x < f a" if "x \<in> set xs" for x
  proof -
    have "f x \<le> f a" using Cons.prems(1) that by simp
    moreover have "f x \<noteq> f a" using Cons.prems(2) that by (metis distinct.simps(2) list.simps(9) imageI list.set_map)
    ultimately show ?thesis by simp
  qed
  then show ?case using Cons by simp
qed

lemma sorted_wrt_map_toManifestComponent:
  "sorted_wrt (\<lambda>a b. mc_id b < mc_id a) (map toManifestComponent xs) = sorted_wrt (\<lambda>a b. comp_id b < comp_id a) xs"
  by (simp add: sorted_wrt_map toManifestComponent_def)

lemma COMPONENT_TYPE_META_defined:
  "1 \<le> t \<Longrightarrow> t \<le> 7 \<Longrightarrow> \<exists>m. COMPONENT_TYPE_META t = Some m"
  unfolding COMPONENT_TYPE_META_def by (simp; presburger)

lemma generateManifest_in_range:
  assumes "1 \<le> t" "t \<le> 7"
  shows "\<exists>m. generateManifest r t = Inr m \<and>
             md_components (mf_data m) = map toManifestComponent (sortByIdDescending (getByType r t))"
proof -
  obtain meta where "COMPONENT_TYPE_META t = Some meta"
    using COMPONENT_TYPE_META_defined[OF assms] by blast
  then show ?thesis by (simp add: generateManifest_def Let_def)
qed

text \<open>
  Claim C8.  For a type from 1 to 7 and a registry built by any call sequence, the
  manifest lists exactly the stored components of that type (converted to manifest
  entries), by strictly descending id.  Registering a component with id 1 and one with
  id 2, both of type 3, in that order, gives the manifest of type 3 the order 2, 1.
\<close>

theorem generateManifest_sorted_partition:
  "(1 \<le> t \<and> t \<le> 7 \<longrightarrow>
      (\<exists>m. generateManifest (registry_after cfg calls) t = Inr m
         \<and> mset (md_components (mf_data m)) =
             image_mset toManifestComponent
               (filter_mset (\<lambda>c. comp_type c = t) (mset (getAllComponents (registry_after cfg calls))))
         \<and> sorted_wrt (\<lambda>a b. mc_id a > mc_id b) (md_components (mf_data m))))
   \<and> (comp_id c1 = 1 \<and> comp_type c1 = 3 \<and> comp_id c2 = 2 \<and> comp_type c2 = 3 \<longrightarrow>
      (\<exists>m. generateManifest (registry_after cfg [AddComponents [c1, c2]]) 3 = Inr m
         \<and> map mc_id (md_components (mf_data m)) = [2, 1]))"
proof (intro conjI impI)
  let ?r = "registry_after cfg calls"
  assume t: "1 \<le> t \<and> t \<le> 7"
  have inv: "registry_inv cfg ?r" by (rule registry_after_inv)
  have tin: "t \<in> set [1, 2, 3, 4, 5, 6, 7]" using t by (simp; presburger)
  have part: "getByType ?r t = filter (\<lambda>c. comp_type c = t) (getAllComponents ?r)"
    using inv_getByType[OF inv, of t] tin by simp
  obtain m where m: "generateManifest ?r t = Inr m"
    and comps: "md_components (mf_data m) = map toManifestComponent (sortByIdDescending (getByType ?r t))"
    using generateManifest_in_range[of t ?r] t by blast
  have perm: "mset (sortByIdDescending (getByType ?r t)) = filter_mset (\<lambda>c. comp_type c = t) (mset (getAllComponents ?r))"
    by (simp add: sortByIdDescending_def mset_Array_sort part)
  have "distinct (map comp_id (getAllComponents ?r))" by (rule inv_distinct_ids[OF inv])
  then have "distinct (map comp_id (getByType ?r t))" unfolding part by (rule distinct_map_filter)
  then have "distinct (map comp_id (sortByIdDescending (getByType ?r t)))"
    by (metis mset_Array_sort sortByIdDescending_def mset_map mset_eq_imp_distinct_iff)
  then have "sorted_wrt (\<lambda>a b. comp_id b < comp_id a) (sortByIdDescending (getByType ?r t))"
    using sorted_sortByIdDescending[of "getByType ?r t"] by (simp add: strictly_descending)
  then have "sorted_wrt (\<lambda>a b. mc_id a > mc_id b) (md_components (mf_data m))"
    unfolding comps by (simp add: sorted_wrt_map_toManifestComponent)
  moreover have "mset (md_components (mf_data m)) =
             image_mset toManifestComponent (filter_mset (\<lambda>c. comp_type c = t) (mset (getAllComponents ?r)))"
    unfolding comps using perm by (metis mset_map)
  ultimately show "\<exists>m. generateManifest ?r t = Inr m
         \<and> mset (md_components (mf_data m)) =
             image_mset toManifestComponent (filter_mset (\<lambda>c. comp_type c = t) (mset (getAllComponents ?r)))
         \<and> sorted_wrt (\<lambda>a b. mc_id a > mc_id b) (md_components (mf_data m))"
    using m by blast
next
  assume a: "comp_id c1 = 1 \<and> comp_type c1 = 3 \<and> comp_id c2 = 2 \<and> comp_type c2 = 3"
  have "getByType (registry_after cfg [AddComponents [c1, c2]]) 3 =
     [c1\<lparr>comp_download_url := cdnBaseUrl cfg @ ''/'' @ comp_file_name c1, comp_logo := logoUrl cfg\<rparr>,
      c2\<lparr>comp_download_url := cdnBaseUrl cfg @ ''/'' @ comp_file_name c2, comp_logo := logoUrl cfg\<rparr>]"
    using a by (simp add: registry_after_def new_ComponentRegistry_def addComponent_def Map_has_def Map_get_def
        Let_def getByType_def)
  then show "\<exists>m. generateManifest (registry_after cfg [AddComponents [c1, c2]]) 3 = Inr m
         \<and> map mc_id (md_components (mf_data m)) = [2, 1]"
    using a by (simp add: generateManifest_def Let_def COMPONENT_TYPE_META_def sortByIdDescending_def Array_sort_def
        toManifestComponent_def)
qed

theorem generateManifest_sorted_partition_witness:
  "(1::int) \<le> 3 \<and> (3::int) \<le> 7
   \<and> comp_id (sample_component 1 3 ''a'') = 1 \<and> comp_type (sample_component 1 3 ''a'') = 3
   \<and> comp_id (sample_component 2 3 ''b'') = 2 \<and> comp_type (sample_component 2 3 ''b'') = 3
   \<and> (\<exists>m. generateManifest (registry_after sample_config
              [AddComponents [sample_component 1 3 ''a'', sample_component 2 3 ''b'']]) 3 = Inr m
          \<and> map mc_id (md_components (mf_data m)) = [2, 1]
          \<and> sorted_wrt (\<lambda>a b. mc_id a > mc_id b) (md_components (mf_data m)))"
  using generateManifest_sorted_partition
    [of 3 sample_config "[AddComponents [sample_component 1 3 ''a'', sample_component 2 3 ''b'']]"
        "sample_component 1 3 ''a''" "sample_component 2 3 ''b''"]
  by (auto simp add: sample_component_def)

section \<open>Index\<close>

lemma index_categories_all:
  "index_categories r [1, 2, 3, 4, 5, 6, 7] = Inr cats \<Longrightarrow>
     map ic_type cats = [1, 2, 3, 4, 5, 6, 7] \<and> map ic_count cats = map (getCountByType r) [1, 2, 3, 4, 5, 6, 7]"
  by (auto simp add: COMPONENT_TYPE_META_def)

lemma index_categories_returns: "\<exists>cats. index_categories r [1, 2, 3, 4, 5, 6, 7] = Inr cats"
  by (simp add: COMPONENT_TYPE_META_def)

lemma generateIndex_returns:
  "\<exists>d. generateIndex r = Inr d
       \<and> map ic_type (ix_categories (if_data d)) = [1, 2, 3, 4, 5, 6, 7]
       \<and> map ic_count (ix_categories (if_data d)) = map (getCountByType r) [1, 2, 3, 4, 5, 6, 7]
       \<and> ix_total_components (if_data d) = getTotalCount r"
proof -
  obtain cats where c: "index_categories r [1, 2, 3, 4, 5, 6, 7] = Inr cats"
    using index_categories_returns by blast
  then show ?thesis using index_categories_all[OF c] by (simp add: generateIndex_def)
qed




text \<open>
  Claim C9.  For a registry built by any call sequence \<open>generateIndex\<close> returns a
  document with seven categories, of the types 1 to 7 in this order; the count of each
  is the number of stored components of its type, and \<open>total_components\<close> is the
  number of stored components.  With components of types 3, 3, 1 and ids 5, 9, 2 the
  first category is that of type 1, with count 1.
\<close>

theorem generateIndex_counts:
  "(\<exists>d. generateIndex (registry_after cfg calls) = Inr d
       \<and> map ic_type (ix_categories (if_data d)) = [1, 2, 3, 4, 5, 6, 7]
       \<and> map ic_count (ix_categories (if_data d)) =
           map (\<lambda>t. length (filter (\<lambda>c. comp_type c = t) (getAllComponents (registry_after cfg calls))))
               [1, 2, 3, 4, 5, 6, 7]
       \<and> ix_total_components (if_data d) = length (getAllComponents (registry_after cfg calls)))
   \<and> (map comp_type [c1, c2, c3] = [3, 3, 1] \<and> map comp_id [c1, c2, c3] = [5, 9, 2] \<longrightarrow>
        (\<exists>d. generateIndex (registry_after cfg [AddComponents [c1, c2, c3]]) = Inr d
           \<and> length (ix_categories (if_data d)) = 7
           \<and> ic_type (ix_categories (if_data d) ! 0) = 1
           \<and> ic_count (ix_categories (if_data d) ! 0) = 1))"
proof (intro conjI impI)
  let ?r = "registry_after cfg calls"
  have inv: "registry_inv cfg ?r" by (rule registry_after_inv)
  from generateIndex_returns[of ?r] obtain d where d: "generateIndex ?r = Inr d"
    and ty: "map ic_type (ix_categories (if_data d)) = [1, 2, 3, 4, 5, 6, 7]"
    and cn: "map ic_count (ix_categories (if_data d)) = map (getCountByType ?r) [1, 2, 3, 4, 5, 6, 7]"
    and tot: "ix_total_components (if_data d) = getTotalCount ?r"
    by (elim exE conjE)
  have cnt: "map (getCountByType ?r) [1, 2, 3, 4, 5, 6, 7] =
        map (\<lambda>t. length (filter (\<lambda>c. comp_type c = t) (getAllComponents ?r))) [1, 2, 3, 4, 5, 6, 7]"
    by (simp add: getCountByType_def inv_getByType[OF inv])
  have total: "getTotalCount ?r = length (getAllComponents ?r)"
    by (simp add: getTotalCount_def getAllComponents_def Map_size_def Map_values_def)
  show "\<exists>d. generateIndex ?r = Inr d
       \<and> map ic_type (ix_categories (if_data d)) = [1, 2, 3, 4, 5, 6, 7]
       \<and> map ic_count (ix_categories (if_data d)) =
           map (\<lambda>t. length (filter (\<lambda>c. comp_type c = t) (getAllComponents ?r))) [1, 2, 3, 4, 5, 6, 7]
       \<and> ix_total_components (if_data d) = length (getAllComponents ?r)"
  proof (intro exI[of _ d] conjI)
    show "generateIndex ?r = Inr d" by (rule d)
    show "map ic_type (ix_categories (if_data d)) = [1, 2, 3, 4, 5, 6, 7]" by (rule ty)
    show "map ic_count (ix_categories (if_data d)) =
           map (\<lambda>t. length (filter (\<lambda>c. comp_type c = t) (getAllComponents ?r))) [1, 2, 3, 4, 5, 6, 7]"
      using cn cnt by (rule trans)
    show "ix_total_components (if_data d) = length (getAllComponents ?r)"
      using tot total by (rule trans)
  qed
next
  assume a: "map comp_type [c1, c2, c3] = [3, 3, 1] \<and> map comp_id [c1, c2, c3] = [5, 9, 2]"
  let ?r = "registry_after cfg [AddComponents [c1, c2, c3]]"
  have one: "getCountByType ?r 1 = 1"
    using a by (simp add: registry_after_def new_ComponentRegistry_def addComponent_def Map_has_def Map_get_def
        Let_def getByType_def getCountByType_def)
  from generateIndex_returns[of ?r] obtain d where d: "generateIndex ?r = Inr d"
    and ty: "map ic_type (ix_categories (if_data d)) = [1, 2, 3, 4, 5, 6, 7]"
    and cn: "map ic_count (ix_categories (if_data d)) = map (getCountByType ?r) [1, 2, 3, 4, 5, 6, 7]"
    by (elim exE conjE)
  have "length (map ic_type (ix_categories (if_data d))) = length [1, 2, 3, 4, 5, 6, 7 :: int]"
    by (simp only: ty)
  then have len: "length (ix_categories (if_data d)) = 7" by simp
  have "map ic_type (ix_categories (if_data d)) ! 0 = 1" by (simp only: ty nth_Cons_0)
  then have t0: "ic_type (ix_categories (if_data d) ! 0) = 1" using len by (simp add: nth_map)
  have "map ic_count (ix_categories (if_data d)) ! 0 = getCountByType ?r 1"
    by (simp only: cn list.map nth_Cons_0)
  then have c0: "ic_count (ix_categories (if_data d) ! 0) = 1" using len one by (simp add: nth_map)
  show "\<exists>d. generateIndex ?r = Inr d \<and> length (ix_categories (if_data d)) = 7
           \<and> ic_type (ix_categories (if_data d) ! 0) = 1 \<and> ic_count (ix_categories (if_data d) ! 0) = 1"
    using d len t0 c0 by (intro exI[of _ d] conjI)
qed


theorem generateIndex_counts_witness:
  "map comp_type [sample_component 5 3 ''a'', sample_component 9 3 ''b'', sample_component 2 1 ''c''] = [3, 3, 1]
   \<and> map comp_id [sample_component 5 3 ''a'', sample_component 9 3 ''b'', sample_component 2 1 ''c''] = [5, 9, 2]
   \<and> (\<exists>d. generateIndex (registry_after sample_config
              [AddComponents [sample_component 5 3 ''a'', sample_component 9 3 ''b'', sample_component 2 1 ''c'']])
            = Inr d
          \<and> length (ix_categories (if_data d)) = 7
          \<and> ic_type (ix_categories (if_data d) ! 0) = 1
          \<and> ic_count (ix_categories (if_data d) ! 0) = 1)"
proof -
  have h: "map comp_type [sample_component 5 3 ''a'', sample_component 9 3 ''b'', sample_component 2 1 ''c''] = [3, 3, 1]
   \<and> map comp_id [sample_component 5 3 ''a'', sample_component 9 3 ''b'', sample_component 2 1 ''c''] = [5, 9, 2]"
    by (simp add: sample_component_def)
  from generateIndex_counts
    [of sample_config "[]" "sample_component 5 3 ''a''" "sample_component 9 3 ''b''" "sample_component 2 1 ''c''"]
  have "map comp_type [sample_component 5 3 ''a'', sample_component 9 3 ''b'', sample_component 2 1 ''c''] = [3, 3, 1]
   \<and> map comp_id [sample_component 5 3 ''a'', sample_component 9 3 ''b'', sample_component 2 1 ''c''] = [5, 9, 2]
   \<longrightarrow> (\<exists>d. generateIndex (registry_after sample_config
              [AddComponents [sample_component 5 3 ''a'', sample_component 9 3 ''b'', sample_component 2 1 ''c'']])
            = Inr d
          \<and> length (ix_categories (if_data d)) = 7
          \<and> ic_type (ix_categories (if_data d) ! 0) = 1
          \<and> ic_count (ix_categories (if_data d) ! 0) = 1)"
    by (rule conjunct2)
  with h show ?thesis by (intro conjI) (rule conjunct1, assumption, rule conjunct2, assumption, erule mp, assumption)
qed

section \<open>Validation\<close>

lemma errors_validate:
  "errors (validate r) =
     (if Map_size (components r) = 0 then [''No components loaded''] else [])
     @ (if imagefs r = None then [''Imagefs not loaded''] else [])
     @ (if length (containers r) = 0 then [''No containers loaded''] else [])
     @ (if defaults r = None then [''Defaults not loaded''] else [])
     @ (if executionConfig r = None then [''Execution config not loaded''] else [])
     @ concat (map component_errors (Map_values (components r)))
     @ (case defaults r of None \<Rightarrow> [] | Some d \<Rightarrow> defaults_errors r d)"
  by (simp add: validate_def Let_def)

lemma component_errors_reported:
  "c \<in> set (getAllComponents r) \<Longrightarrow> m \<in> set (component_errors c) \<Longrightarrow> m \<in> set (errors (validate r))"
  unfolding errors_validate getAllComponents_def by auto

lemma defaults_errors_reported:
  "defaults r = Some d \<Longrightarrow> m \<in> set (defaults_errors r d) \<Longrightarrow> m \<in> set (errors (validate r))"
  unfolding errors_validate by simp

lemma md5_error_listed:
  "\<not> md5_pattern_test (comp_file_md5 c) \<Longrightarrow>
     ''Component '' @ number_to_string (comp_id c) @ '': invalid MD5 hash'' \<in> set (component_errors c)"
  by (simp add: component_errors_def)

lemma file_size_error_listed:
  "typeof (comp_file_size c) \<noteq> ''string'' \<Longrightarrow>
     ''Component '' @ number_to_string (comp_id c) @ '': file_size must be string'' \<in> set (component_errors c)"
  by (simp add: component_errors_def)

lemma name_error_listed:
  "comp_name c = [] \<Longrightarrow>
     ''Component '' @ number_to_string (comp_id c) @ '': missing name'' \<in> set (component_errors c)"
  by (simp add: component_errors_def)

lemma file_name_error_listed:
  "comp_file_name c = [] \<Longrightarrow>
     ''Component '' @ number_to_string (comp_id c) @ '': missing file_name'' \<in> set (component_errors c)"
  by (simp add: component_errors_def)

lemma download_url_error_listed:
  "comp_download_url c = [] \<Longrightarrow>
     ''Component '' @ number_to_string (comp_id c) @ '': missing download_url'' \<in> set (component_errors c)"
  by (simp add: component_errors_def)

lemma dxvk_error_listed:
  "\<not> Map_has (components r) (dxvk d) \<Longrightarrow>
     ''Default dxvk ID '' @ number_to_string (dxvk d) @ '' not found'' \<in> set (defaults_errors r d)"
  by (simp add: defaults_errors_def)

lemma vkd3d_error_listed:
  "\<not> Map_has (components r) (vkd3d d) \<Longrightarrow>
     ''Default vkd3d ID '' @ number_to_string (vkd3d d) @ '' not found'' \<in> set (defaults_errors r d)"
  by (simp add: defaults_errors_def)

lemma steamClient_error_listed:
  "\<not> Map_has (components r) (steamClient d) \<Longrightarrow>
     ''Default steamClient ID '' @ number_to_string (steamClient d) @ '' not found'' \<in> set (defaults_errors r d)"
  by (simp add: defaults_errors_def)

lemma generic_error_listed:
  "i \<in> set (genericComponentIds d) \<Longrightarrow> \<not> Map_has (components r) i \<Longrightarrow>
     ''Generic script component ID '' @ number_to_string i @ '' not found'' \<in> set (defaults_errors r d)"
  unfolding defaults_errors_def by (auto intro!: bexI[of _ i])

lemma qualcomm_error_listed:
  "i \<in> set (qualcommComponentIds d) \<Longrightarrow> \<not> Map_has (components r) i \<Longrightarrow>
     ''Qualcomm script component ID '' @ number_to_string i @ '' not found'' \<in> set (defaults_errors r d)"
  unfolding defaults_errors_def by (auto intro!: bexI[of _ i])

lemma no_components_listed: "getTotalCount r = 0 \<longrightarrow> ''No components loaded'' \<in> set (errors (validate r))"
  and no_imagefs_listed: "imagefs r = None \<longrightarrow> ''Imagefs not loaded'' \<in> set (errors (validate r))"
  and no_containers_listed: "containers r = [] \<longrightarrow> ''No containers loaded'' \<in> set (errors (validate r))"
  and no_defaults_listed: "defaults r = None \<longrightarrow> ''Defaults not loaded'' \<in> set (errors (validate r))"
  and no_executionConfig_listed:
    "executionConfig r = None \<longrightarrow> ''Execution config not loaded'' \<in> set (errors (validate r))"
  unfolding errors_validate getTotalCount_def by simp_all

lemma valid_iff_no_errors: "valid (validate r) \<longleftrightarrow> errors (validate r) = []"
  by (simp add: validate_def Let_def)

text \<open>
  Claim C3.  Whatever the registry holds, the error list of \<open>validate\<close> has the MD5
  message of every component whose \<open>file_md5\<close> fails the pattern, and next to it the
  message of every other check that fails: the other checks on each component, the five
  checks on required data, and the checks on the ids the defaults refer to.  No failure
  hides another; \<open>valid\<close> holds exactly when the list is empty.
\<close>

theorem validate_reports_every_violation:
  "(c \<in> set (getAllComponents r) \<and> \<not> md5_pattern_test (comp_file_md5 c) \<longrightarrow>
      ''Component '' @ number_to_string (comp_id c) @ '': invalid MD5 hash'' \<in> set (errors (validate r)))
   \<and> (c' \<in> set (getAllComponents r) \<longrightarrow>
        (typeof (comp_file_size c') \<noteq> ''string'' \<longrightarrow>
           ''Component '' @ number_to_string (comp_id c') @ '': file_size must be string'' \<in> set (errors (validate r)))
        \<and> (comp_name c' = [] \<longrightarrow>
           ''Component '' @ number_to_string (comp_id c') @ '': missing name'' \<in> set (errors (validate r)))
        \<and> (comp_file_name c' = [] \<longrightarrow>
           ''Component '' @ number_to_string (comp_id c') @ '': missing file_name'' \<in> set (errors (validate r)))
        \<and> (comp_download_url c' = [] \<longrightarrow>
           ''Component '' @ number_to_string (comp_id c') @ '': missing download_url'' \<in> set (errors (validate r))))
   \<and> (getTotalCount r = 0 \<longrightarrow> ''No components loaded'' \<in> set (errors (validate r)))
   \<and> (imagefs r = None \<longrightarrow> ''Imagefs not loaded'' \<in> set (errors (validate r)))
   \<and> (containers r = [] \<longrightarrow> ''No containers loaded'' \<in> set (errors (validate r)))
   \<and> (defaults r = None \<longrightarrow> ''Defaults not loaded'' \<in> set (errors (validate r)))
   \<and> (executionConfig r = None \<longrightarrow> ''Execution config not loaded'' \<in> set (errors (validate r)))
   \<and> (defaults r = Some d \<longrightarrow>
        (\<not> Map_has (components r) (dxvk d) \<longrightarrow>
           ''Default dxvk ID '' @ number_to_string (dxvk d) @ '' not found'' \<in> set (errors (validate r)))
        \<and> (\<not> Map_has (components r) (vkd3d d) \<longrightarrow>
           ''Default vkd3d ID '' @ number_to_string (vkd3d d) @ '' not found'' \<in> set (errors (validate r)))
        \<and> (\<not> Map_has (components r) (steamClient d) \<longrightarrow>
           ''Default steamClient ID '' @ number_to_string (steamClient d) @ '' not found'' \<in> set (errors (validate r)))
        \<and> (i \<in> set (genericComponentIds d) \<and> \<not> Map_has (components r) i \<longrightarrow>
           ''Generic script component ID '' @ number_to_string i @ '' not found'' \<in> set (errors (validate r)))
        \<and> (j \<in> set (qualcommComponentIds d) \<and> \<not> Map_has (components r) j \<longrightarrow>
           ''Qualcomm script component ID '' @ number_to_string j @ '' not found'' \<in> set (errors (validate r))))
   \<and> (valid (validate r) \<longleftrightarrow> errors (validate r) = [])"
proof -
  have p1: "c \<in> set (getAllComponents r) \<and> \<not> md5_pattern_test (comp_file_md5 c) \<longrightarrow>
      ''Component '' @ number_to_string (comp_id c) @ '': invalid MD5 hash'' \<in> set (errors (validate r))"
    using component_errors_reported[OF _ md5_error_listed] by blast
  have p2: "c' \<in> set (getAllComponents r) \<longrightarrow>
        (typeof (comp_file_size c') \<noteq> ''string'' \<longrightarrow>
           ''Component '' @ number_to_string (comp_id c') @ '': file_size must be string'' \<in> set (errors (validate r)))
        \<and> (comp_name c' = [] \<longrightarrow>
           ''Component '' @ number_to_string (comp_id c') @ '': missing name'' \<in> set (errors (validate r)))
        \<and> (comp_file_name c' = [] \<longrightarrow>
           ''Component '' @ number_to_string (comp_id c') @ '': missing file_name'' \<in> set (errors (validate r)))
        \<and> (comp_download_url c' = [] \<longrightarrow>
           ''Component '' @ number_to_string (comp_id c') @ '': missing download_url'' \<in> set (errors (validate r)))"
    using component_errors_reported[OF _ file_size_error_listed, of c' r]
      component_errors_reported[OF _ name_error_listed, of c' r]
      component_errors_reported[OF _ file_name_error_listed, of c' r]
      component_errors_reported[OF _ download_url_error_listed, of c' r]
    by blast
  have p3: "defaults r = Some d \<longrightarrow>
        (\<not> Map_has (components r) (dxvk d) \<longrightarrow>
           ''Default dxvk ID '' @ number_to_string (dxvk d) @ '' not found'' \<in> set (errors (validate r)))
        \<and> (\<not> Map_has (components r) (vkd3d d) \<longrightarrow>
           ''Default vkd3d ID '' @ number_to_string (vkd3d d) @ '' not found'' \<in> set (errors (validate r)))
        \<and> (\<not> Map_has (components r) (steamClient d) \<longrightarrow>
           ''Default steamClient ID '' @ number_to_string (steamClient d) @ '' not found'' \<in> set (errors (validate r)))
        \<and> (i \<in> set (genericComponentIds d) \<and> \<not> Map_has (components r) i \<longrightarrow>
           ''Generic script component ID '' @ number_to_string i @ '' not found'' \<in> set (errors (validate r)))
        \<and> (j \<in> set (qualcommComponentIds d) \<and> \<not> Map_has (components r) j \<longrightarrow>
           ''Qualcomm script component ID '' @ number_to_string j @ '' not found'' \<in> set (errors (validate r)))"
    using defaults_errors_reported[OF _ dxvk_error_listed, of r d]
      defaults_errors_reported[OF _ vkd3d_error_listed, of r d]
      defaults_errors_reported[OF _ steamClient_error_listed, of r d]
      defaults_errors_reported[OF _ generic_error_listed, of r d i]
      defaults_errors_reported[OF _ qualcomm_error_listed, of r d j]
    by blast
  show ?thesis
    using p1 p2 no_components_listed[of r] no_imagefs_listed[of r] no_containers_listed[of r]
      no_defaults_listed[of r] no_executionConfig_listed[of r] p3 valid_iff_no_errors[of r]
    by (intro conjI)
qed

text \<open>The numbers that occur in the sample messages.\<close>

lemma number_to_string_samples:
  "number_to_string 7 = ''7''" "number_to_string 8 = ''8''" "number_to_string 99 = ''99''"
  "number_to_string 96 = ''96''" "number_to_string 1 = ''1''"
  by (simp_all add: number_to_string_def nat_digits.simps digit_char_def)

lemma sample_broken_registry_eval:
  "getAllComponents sample_broken_registry =
     [as_stored sample_config sample_bad_md5, as_stored sample_config sample_bad_fields]"
  "imagefs sample_broken_registry = None"
  "containers sample_broken_registry = []"
  "executionConfig sample_broken_registry = None"
  "defaults sample_broken_registry = Some (sample_defaults 99 [7, 96])"
  "\<not> Map_has (components sample_broken_registry) 99"
  "\<not> Map_has (components sample_broken_registry) 96"
  by (simp_all add: sample_broken_registry_def sample_eval getAllComponents_def Map_values_def
      sample_bad_md5_def sample_bad_fields_def as_stored_def)

theorem validate_reports_every_violation_witness:
  "''Component 7: invalid MD5 hash'' \<in> set (errors (validate sample_broken_registry))
   \<and> ''Component 8: file_size must be string'' \<in> set (errors (validate sample_broken_registry))
   \<and> ''Component 8: missing name'' \<in> set (errors (validate sample_broken_registry))
   \<and> ''Component 8: missing file_name'' \<in> set (errors (validate sample_broken_registry))
   \<and> ''Imagefs not loaded'' \<in> set (errors (validate sample_broken_registry))
   \<and> ''No containers loaded'' \<in> set (errors (validate sample_broken_registry))
   \<and> ''Execution config not loaded'' \<in> set (errors (validate sample_broken_registry))
   \<and> ''Default dxvk ID 99 not found'' \<in> set (errors (validate sample_broken_registry))
   \<and> ''Default vkd3d ID 99 not found'' \<in> set (errors (validate sample_broken_registry))
   \<and> ''Default steamClient ID 99 not found'' \<in> set (errors (validate sample_broken_registry))
   \<and> ''Generic script component ID 96 not found'' \<in> set (errors (validate sample_broken_registry))
   \<and> ''Qualcomm script component ID 96 not found'' \<in> set (errors (validate sample_broken_registry))
   \<and> \<not> valid (validate sample_broken_registry)
   \<and> ''No components loaded'' \<in> set (errors (validate (new_ComponentRegistry sample_config)))
   \<and> ''Defaults not loaded'' \<in> set (errors (validate (new_ComponentRegistry sample_config)))"
proof -
  have c: "as_stored sample_config sample_bad_md5 \<in> set (getAllComponents sample_broken_registry)"
    and c': "as_stored sample_config sample_bad_fields \<in> set (getAllComponents sample_broken_registry)"
    by (simp_all add: sample_broken_registry_eval)
  have f7: "\<not> md5_pattern_test (comp_file_md5 (as_stored sample_config sample_bad_md5))"
    "comp_id (as_stored sample_config sample_bad_md5) = 7"
    by (simp_all add: as_stored_def sample_bad_md5_def sample_component_def md5_pattern_test_def)
  have f8: "typeof (comp_file_size (as_stored sample_config sample_bad_fields)) \<noteq> ''string''"
    "comp_name (as_stored sample_config sample_bad_fields) = []"
    "comp_file_name (as_stored sample_config sample_bad_fields) = []"
    "comp_id (as_stored sample_config sample_bad_fields) = 8"
    by (simp_all add: as_stored_def sample_bad_fields_def sample_component_def)
  have d: "dxvk (sample_defaults 99 [7, 96]) = 99" "vkd3d (sample_defaults 99 [7, 96]) = 99"
    "steamClient (sample_defaults 99 [7, 96]) = 99"
    "genericComponentIds (sample_defaults 99 [7, 96]) = [7, 96]"
    "qualcommComponentIds (sample_defaults 99 [7, 96]) = [7, 96]"
    by (simp_all add: sample_defaults_def)
  have e: "getTotalCount (new_ComponentRegistry sample_config) = 0"
    "defaults (new_ComponentRegistry sample_config) = None"
    by (simp_all add: new_ComponentRegistry_def getTotalCount_def Map_size_def)
  have main: "''Component 7: invalid MD5 hash'' \<in> set (errors (validate sample_broken_registry))
   \<and> ''Component 8: file_size must be string'' \<in> set (errors (validate sample_broken_registry))
   \<and> ''Component 8: missing name'' \<in> set (errors (validate sample_broken_registry))
   \<and> ''Component 8: missing file_name'' \<in> set (errors (validate sample_broken_registry))
   \<and> ''Imagefs not loaded'' \<in> set (errors (validate sample_broken_registry))
   \<and> ''No containers loaded'' \<in> set (errors (validate sample_broken_registry))
   \<and> ''Execution config not loaded'' \<in> set (errors (validate sample_broken_registry))
   \<and> ''Default dxvk ID 99 not found'' \<in> set (errors (validate sample_broken_registry))
   \<and> ''Default vkd3d ID 99 not found'' \<in> set (errors (validate sample_broken_registry))
   \<and> ''Default steamClient ID 99 not found'' \<in> set (errors (validate sample_broken_registry))
   \<and> ''Generic script component ID 96 not found'' \<in> set (errors (validate sample_broken_registry))
   \<and> ''Qualcomm script component ID 96 not found'' \<in> set (errors (validate sample_broken_registry))"
    using validate_reports_every_violation
      [of "as_stored sample_config sample_bad_md5" sample_broken_registry
          "as_stored sample_config sample_bad_fields" "sample_defaults 99 [7, 96]" 96 96]
    by (simp add: c c' f7 f8 d sample_broken_registry_eval number_to_string_samples)
  then have "errors (validate sample_broken_registry) \<noteq> []" by auto
  then have nv: "\<not> valid (validate sample_broken_registry)" by (simp add: valid_iff_no_errors)
  have fresh: "''No components loaded'' \<in> set (errors (validate (new_ComponentRegistry sample_config)))
   \<and> ''Defaults not loaded'' \<in> set (errors (validate (new_ComponentRegistry sample_config)))"
    using validate_reports_every_violation
      [of "as_stored sample_config sample_bad_md5" "new_ComponentRegistry sample_config"
          "as_stored sample_config sample_bad_fields" "sample_defaults 99 [7, 96]" 96 96]
    by (simp add: e)
  from main nv fresh show ?thesis by simp
qed

section \<open>File sizes\<close>

lemma sample_registry_non_digit_size_eval:
  "components sample_registry_non_digit_size = [(1, as_stored sample_config sample_non_digit_size)]"
  "imagefs sample_registry_non_digit_size = Some sample_imagefs"
  "containers sample_registry_non_digit_size = [sample_container]"
  "executionConfig sample_registry_non_digit_size = Some sample_executionConfig"
  "defaults sample_registry_non_digit_size = Some (sample_defaults 1 [1])"
  by (simp_all add: sample_registry_non_digit_size_def sample_registry_def sample_eval
      sample_non_digit_size_def as_stored_def)

lemma sample_md5_accepted: "md5_pattern_test ''0123456789abcdef0123456789ABCDEF''"
  by (simp add: md5_pattern_test_def hex_digit_ci_def)

text \<open>Which messages of a report are file-size messages: those with the suffix of that message.\<close>

lemma file_size_suffix_last:
  "suffix '': file_size must be string'' m \<Longrightarrow> last m = CHR ''g''"
  by (auto simp add: suffix_def)

lemma file_size_message_suffix:
  "suffix '': file_size must be string'' (''Component '' @ n @ '': file_size must be string'')"
  by (simp add: suffix_def)

lemma component_errors_file_size:
  "filter (suffix '': file_size must be string'') (component_errors c) =
     (if typeof (comp_file_size c) \<noteq> ''string''
      then [''Component '' @ number_to_string (comp_id c) @ '': file_size must be string''] else [])"
proof -
  have others:
    "\<not> suffix '': file_size must be string'' (''Component '' @ number_to_string (comp_id c) @ '': invalid MD5 hash'')"
    "\<not> suffix '': file_size must be string'' (''Component '' @ number_to_string (comp_id c) @ '': missing name'')"
    "\<not> suffix '': file_size must be string'' (''Component '' @ number_to_string (comp_id c) @ '': missing file_name'')"
    "\<not> suffix '': file_size must be string'' (''Component '' @ number_to_string (comp_id c) @ '': missing download_url'')"
    by (auto dest!: file_size_suffix_last)
  show ?thesis
    using others file_size_message_suffix[of "number_to_string (comp_id c)"]
    by (simp add: component_errors_def)
qed

lemma defaults_errors_last: "m \<in> set (defaults_errors r d) \<Longrightarrow> last m = CHR ''d''"
  by (auto simp add: defaults_errors_def split: if_splits)

lemma defaults_errors_file_size:
  "filter (suffix '': file_size must be string'') (defaults_errors r d) = []"
  unfolding filter_empty_conv using defaults_errors_last[of _ r d] file_size_suffix_last by fastforce

lemma concat_component_errors_file_size:
  "filter (suffix '': file_size must be string'') (concat (map component_errors cs)) =
     map (\<lambda>c. ''Component '' @ number_to_string (comp_id c) @ '': file_size must be string'')
         (filter (\<lambda>c. typeof (comp_file_size c) \<noteq> ''string'') cs)"
  by (induction cs) (simp_all add: component_errors_file_size)

lemma required_data_not_file_size:
  "\<not> suffix '': file_size must be string'' ''No components loaded''"
  "\<not> suffix '': file_size must be string'' ''Imagefs not loaded''"
  "\<not> suffix '': file_size must be string'' ''No containers loaded''"
  "\<not> suffix '': file_size must be string'' ''Defaults not loaded''"
  "\<not> suffix '': file_size must be string'' ''Execution config not loaded''"
  by (auto dest!: file_size_suffix_last)

lemma validate_file_size_errors:
  "filter (suffix '': file_size must be string'') (errors (validate r)) =
     map (\<lambda>c. ''Component '' @ number_to_string (comp_id c) @ '': file_size must be string'')
         (filter (\<lambda>c. typeof (comp_file_size c) \<noteq> ''string'') (getAllComponents r))"
  unfolding errors_validate getAllComponents_def
  by (simp add: concat_component_errors_file_size required_data_not_file_size defaults_errors_file_size
      split: option.splits)

lemma component_errors_string_file_size:
  assumes "typeof (comp_file_size c) = ''string''"
  shows "''Component '' @ number_to_string i @ '': file_size must be string'' \<notin> set (component_errors c)"
proof
  assume "''Component '' @ number_to_string i @ '': file_size must be string'' \<in> set (component_errors c)"
  then have "''Component '' @ number_to_string i @ '': file_size must be string''
      \<in> set (filter (suffix '': file_size must be string'') (component_errors c))"
    using file_size_message_suffix[of "number_to_string i"] by simp
  then show False using assms by (simp add: component_errors_file_size)
qed

text \<open>
  Claim C4, as stated, fails.  The registry below holds one component whose \<open>file_size\<close>
  is the string \<open>12ab\<close>, which is not a string of decimal digits; \<open>validate\<close> accepts
  the registry with an empty error list.
\<close>

theorem validate_accepts_non_digit_file_size:
  "getAllComponents sample_registry_non_digit_size = [as_stored sample_config sample_non_digit_size]
   \<and> comp_file_size (as_stored sample_config sample_non_digit_size) = JString ''12ab''
   \<and> CHR ''a'' \<in> set ''12ab'' \<and> CHR ''a'' \<notin> set ''0123456789''
   \<and> validate sample_registry_non_digit_size = \<lparr>valid = True, errors = []\<rparr>"
proof -
  have "validate sample_registry_non_digit_size = \<lparr>valid = True, errors = []\<rparr>"
    by (simp add: validate_def Let_def sample_registry_non_digit_size_eval Map_size_def Map_values_def
        Map_has_def component_errors_def defaults_errors_def sample_defaults_def as_stored_def
        sample_non_digit_size_def sample_component_def sample_config_def sample_md5_accepted)
  then show ?thesis
    by (simp add: getAllComponents_def Map_values_def sample_registry_non_digit_size_eval as_stored_def
        sample_non_digit_size_def)
qed

text \<open>
  Claim C4, amended.  \<open>validate\<close> reports \<open>file_size must be string\<close> for every stored
  component whose \<open>file_size\<close> is not of type string, and for no other: the checks on a
  component whose \<open>file_size\<close> is a string yield no such message, whatever the
  characters of the string, and the file-size messages of a report are exactly those of
  the stored components with a \<open>file_size\<close> of another type, in registration order.
\<close>

theorem validate_reports_non_string_file_size:
  "(c \<in> set (getAllComponents r) \<and> typeof (comp_file_size c) \<noteq> ''string'' \<longrightarrow>
     ''Component '' @ number_to_string (comp_id c) @ '': file_size must be string'' \<in> set (errors (validate r)))
   \<and> (typeof (comp_file_size c1) = ''string'' \<longrightarrow>
        ''Component '' @ number_to_string i @ '': file_size must be string'' \<notin> set (component_errors c1))
   \<and> filter (suffix '': file_size must be string'') (errors (validate r2)) =
       map (\<lambda>x. ''Component '' @ number_to_string (comp_id x) @ '': file_size must be string'')
           (filter (\<lambda>x. typeof (comp_file_size x) \<noteq> ''string'') (getAllComponents r2))"
proof (intro conjI impI)
  assume "c \<in> set (getAllComponents r) \<and> typeof (comp_file_size c) \<noteq> ''string''"
  then show "''Component '' @ number_to_string (comp_id c) @ '': file_size must be string'' \<in> set (errors (validate r))"
    using component_errors_reported[OF _ file_size_error_listed, of c r] by blast
next
  assume "typeof (comp_file_size c1) = ''string''"
  then show "''Component '' @ number_to_string i @ '': file_size must be string'' \<notin> set (component_errors c1)"
    by (rule component_errors_string_file_size)
next
  show "filter (suffix '': file_size must be string'') (errors (validate r2)) =
       map (\<lambda>x. ''Component '' @ number_to_string (comp_id x) @ '': file_size must be string'')
           (filter (\<lambda>x. typeof (comp_file_size x) \<noteq> ''string'') (getAllComponents r2))"
    by (rule validate_file_size_errors)
qed

theorem validate_reports_non_string_file_size_witness:
  "as_stored sample_config sample_bad_fields \<in> set (getAllComponents sample_broken_registry)
   \<and> comp_file_size (as_stored sample_config sample_bad_fields) = JNumber 5
   \<and> ''Component 8: file_size must be string'' \<in> set (errors (validate sample_broken_registry))
   \<and> comp_file_size (as_stored sample_config sample_non_digit_size) = JString ''12ab''
   \<and> ''Component 1: file_size must be string''
        \<notin> set (component_errors (as_stored sample_config sample_non_digit_size))
   \<and> filter (suffix '': file_size must be string'') (errors (validate sample_registry_non_digit_size)) = []"
proof -
  have s: "comp_file_size (as_stored sample_config sample_non_digit_size) = JString ''12ab''"
    by (simp add: as_stored_def sample_non_digit_size_def)
  have all: "getAllComponents sample_registry_non_digit_size = [as_stored sample_config sample_non_digit_size]"
    by (simp add: getAllComponents_def Map_values_def sample_registry_non_digit_size_eval)
  have b: "as_stored sample_config sample_bad_fields \<in> set (getAllComponents sample_broken_registry)"
    "comp_file_size (as_stored sample_config sample_bad_fields) = JNumber 5"
    "comp_id (as_stored sample_config sample_bad_fields) = 8"
    by (simp_all add: sample_broken_registry_eval as_stored_def sample_bad_fields_def sample_component_def)
  from validate_reports_non_string_file_size
    [of "as_stored sample_config sample_bad_fields" sample_broken_registry
        "as_stored sample_config sample_non_digit_size" 1 sample_registry_non_digit_size]
  show ?thesis
    by (simp add: s all b number_to_string_samples)
qed

section \<open>Default components\<close>

text \<open>
  Claim C5.  \<open>generateDefaultComponent\<close> raises whenever one of the three default ids
  does not resolve: a \<open>TypeError\<close> when no defaults are loaded at all, the error
  \<open>Default components not found in registry\<close> otherwise.  When all three resolve it
  returns a document with code 200 that holds the three resolved entries and the empty
  translator entry.
\<close>

theorem generateDefaultComponent_strict:
  "(defaults r0 = None \<longrightarrow> generateDefaultComponent r0 ts now = Inl TypeError)
   \<and> (defaults r1 = Some d1
        \<and> (getById r1 (dxvk d1) = None \<or> getById r1 (vkd3d d1) = None \<or> getById r1 (steamClient d1) = None)
      \<longrightarrow> generateDefaultComponent r1 ts now = Inl (Error ''Default components not found in registry''))
   \<and> (defaults r2 = Some d2 \<and> getById r2 (dxvk d2) = Some dx \<and> getById r2 (vkd3d d2) = Some vk
        \<and> getById r2 (steamClient d2) = Some sc
      \<longrightarrow> (\<exists>doc. generateDefaultComponent r2 ts now = Inr doc
            \<and> dcf_code doc = 200
            \<and> dcd_dxvk (dcf_data doc) = toDefaultComponentEntry dx
            \<and> dcd_vkd3d (dcf_data doc) = toDefaultComponentEntry vk
            \<and> dcd_steamClient (dcf_data doc) = toDefaultComponentEntry sc
            \<and> dcd_translator (dcf_data doc) = createEmptyComponent))"
  by (auto simp add: generateDefaultComponent_def split: option.splits)

lemma sample_unknown_default_eval:
  "defaults sample_registry_unknown_default = Some (sample_defaults 99 [1])"
  "getById sample_registry_unknown_default 99 = None"
  by (simp_all add: sample_registry_unknown_default_def sample_registry_def sample_eval)

lemma sample_full_registry_eval:
  "defaults sample_full_registry = Some (sample_defaults 1 [96, 1])"
  "getById sample_full_registry 1 = Some (as_stored sample_config (sample_component 1 3 ''a''))"
  "getById sample_full_registry 96 = None"
  "containers sample_full_registry = [sample_container]"
  "imagefs sample_full_registry = Some sample_imagefs"
  "executionConfig sample_full_registry = Some sample_executionConfig"
  by (simp_all add: sample_full_registry_def sample_registry_def sample_eval as_stored_def)

theorem generateDefaultComponent_strict_witness:
  "generateDefaultComponent (new_ComponentRegistry sample_config) None ''1700000000'' = Inl TypeError
   \<and> generateDefaultComponent sample_registry_unknown_default None ''1700000000''
       = Inl (Error ''Default components not found in registry'')
   \<and> (\<exists>doc. generateDefaultComponent sample_full_registry None ''1700000000'' = Inr doc
          \<and> dcf_code doc = 200
          \<and> dce_id (dcd_dxvk (dcf_data doc)) = 1
          \<and> dce_download_url (dcd_dxvk (dcf_data doc)) = ''https://cdn.test/files/a.tzst''
          \<and> dcd_translator (dcf_data doc) = createEmptyComponent)"
  using generateDefaultComponent_strict
    [of "new_ComponentRegistry sample_config" None "''1700000000''"
        sample_registry_unknown_default "sample_defaults 99 [1]"
        sample_full_registry "sample_defaults 1 [96, 1]"
        "as_stored sample_config (sample_component 1 3 ''a'')"
        "as_stored sample_config (sample_component 1 3 ''a'')"
        "as_stored sample_config (sample_component 1 3 ''a'')"]
  by (auto simp add: sample_unknown_default_eval sample_full_registry_eval sample_defaults_def
      new_ComponentRegistry_def toDefaultComponentEntry_def as_stored_def sample_component_def sample_config_def)

section \<open>Execute scripts\<close>

lemma execute_components_map_filter:
  "execute_components r ids = map toExecuteComponent (List.map_filter (getById r) ids)"
  by (induction ids) (simp_all add: List.map_filter_simps split: option.splits)

lemma find_container:
  "ct \<in> set cs \<Longrightarrow> cont_id ct = i \<Longrightarrow> \<exists>ct'. find (\<lambda>c. cont_id c = i) cs = Some ct' \<and> cont_id ct' = i"
  by (induction cs) auto

lemma sample_without_imagefs_eval:
  "defaults sample_registry_without_imagefs = Some (sample_defaults 1 [1])"
  "containers sample_registry_without_imagefs = [sample_container]"
  "executionConfig sample_registry_without_imagefs = Some sample_executionConfig"
  "imagefs sample_registry_without_imagefs = None"
  by (simp_all add: sample_registry_without_imagefs_def sample_eval)

text \<open>
  Claim C6, as stated, fails.  The registry below has defaults, an execution
  configuration and a container list that holds the container the defaults select, but
  no firmware descriptor; \<open>generateExecuteScript\<close> raises a \<open>TypeError\<close> on it.
\<close>

theorem generateExecuteScript_raises_without_imagefs:
  "defaults sample_registry_without_imagefs = Some (sample_defaults 1 [1])
   \<and> sample_container \<in> set (containers sample_registry_without_imagefs)
   \<and> cont_id sample_container = container (sample_defaults 1 [1])
   \<and> generateExecuteScript sample_registry_without_imagefs Generic None ''1700000000'' = Inl TypeError"
  by (simp add: generateExecuteScript_def sample_without_imagefs_eval sample_defaults_def sample_container_def)

text \<open>
  Claim C6, amended.  When the defaults, the execution configuration and the firmware
  descriptor are loaded and the container list holds a container with the id the
  defaults select, \<open>generateExecuteScript\<close> for the generic variant returns a document:
  its \<open>component\<close> list has the entries of exactly the configured generic ids that
  resolve, in the order of the id list, and \<open>component_ids\<close> is the whole configured
  list.  When the defaults are loaded and no container has the selected id, it raises
  the error \<open>Container ... not found\<close>; when no defaults are loaded it raises a
  \<open>TypeError\<close>.
\<close>

theorem generateExecuteScript_permissive:
  "(defaults r = Some d \<and> ct \<in> set (containers r) \<and> cont_id ct = container d
      \<and> executionConfig r = Some ec \<and> imagefs r = Some img
    \<longrightarrow> (\<exists>doc. generateExecuteScript r Generic ts now = Inr doc
          \<and> es_component (esf_data doc) = map toExecuteComponent (List.map_filter (getById r) (genericComponentIds d))
          \<and> es_component_ids (esf_data doc) = genericComponentIds d
          \<and> cr_id (es_container (esf_data doc)) = container d))
   \<and> (defaults r1 = Some d1 \<and> find (\<lambda>c. cont_id c = container d1) (containers r1) = None
    \<longrightarrow> generateExecuteScript r1 v1 ts now = Inl (Error (''Container '' @ number_to_string (container d1) @ '' not found'')))
   \<and> (defaults r0 = None \<longrightarrow> generateExecuteScript r0 v0 ts now = Inl TypeError)"
proof (intro conjI impI)
  assume a: "defaults r = Some d \<and> ct \<in> set (containers r) \<and> cont_id ct = container d
      \<and> executionConfig r = Some ec \<and> imagefs r = Some img"
  then obtain ct' where f: "find (\<lambda>c. cont_id c = container d) (containers r) = Some ct'"
    and i: "cont_id ct' = container d"
    using find_container[of ct "containers r" "container d"] by blast
  show "\<exists>doc. generateExecuteScript r Generic ts now = Inr doc
          \<and> es_component (esf_data doc) = map toExecuteComponent (List.map_filter (getById r) (genericComponentIds d))
          \<and> es_component_ids (esf_data doc) = genericComponentIds d
          \<and> cr_id (es_container (esf_data doc)) = container d"
    using a f i by (simp add: generateExecuteScript_def Let_def execute_components_map_filter toContainerRef_def)
next
  assume "defaults r1 = Some d1 \<and> find (\<lambda>c. cont_id c = container d1) (containers r1) = None"
  then show "generateExecuteScript r1 v1 ts now = Inl (Error (''Container '' @ number_to_string (container d1) @ '' not found''))"
    by (simp add: generateExecuteScript_def)
next
  assume "defaults r0 = None"
  then show "generateExecuteScript r0 v0 ts now = Inl TypeError"
    by (simp add: generateExecuteScript_def)
qed

theorem generateExecuteScript_permissive_witness:
  "sample_container \<in> set (containers sample_full_registry)
   \<and> genericComponentIds (sample_defaults 1 [96, 1]) = [96, 1]
   \<and> getById sample_full_registry 96 = None
   \<and> (\<exists>doc. generateExecuteScript sample_full_registry Generic None ''1700000000'' = Inr doc
          \<and> map xc_id (es_component (esf_data doc)) = [1]
          \<and> es_component_ids (esf_data doc) = [96, 1])
   \<and> generateExecuteScript (registry_after sample_config [SetDefaults (Some (sample_defaults 1 [1]))])
         Qualcomm None ''1700000000'' = Inl (Error ''Container 1 not found'')
   \<and> generateExecuteScript (new_ComponentRegistry sample_config) Generic None ''1700000000'' = Inl TypeError"
  using generateExecuteScript_permissive
    [of sample_full_registry "sample_defaults 1 [96, 1]" sample_container sample_executionConfig sample_imagefs
        None "''1700000000''"
        "registry_after sample_config [SetDefaults (Some (sample_defaults 1 [1]))]" "sample_defaults 1 [1]" Qualcomm
        "new_ComponentRegistry sample_config" Generic]
  by (auto simp add: sample_full_registry_eval sample_defaults_def sample_container_def List.map_filter_simps
      toExecuteComponent_def as_stored_def sample_component_def registry_after_def new_ComponentRegistry_def
      number_to_string_samples)

end
